theory Spec2Isabelle
  imports Complex_Main
begin

section \<open>The AI service of the blogging backend\<close>

text \<open>
  A shallow embedding of \<^verbatim>\<open>backend/services/aiService.js\<close>: the refusal classifier
  \<^verbatim>\<open>isContentRefusal\<close>, the completion invoker \<^verbatim>\<open>makeCompletion\<close> and the content
  operations built on it.

  A JavaScript string is a sequence of UTF-16 code units. Here a string is a \<^typ>\<open>string\<close>,
  a list of 8-bit \<^typ>\<open>char\<close>s, read as the code units \<open>0x00\<close> to \<open>0xFF\<close> (ASCII and
  Latin-1): the texts given to the operations and the completions of the provider are
  such strings, and every string primitive below is the platform's own, restricted to
  that range. A string with a code unit above \<open>0xFF\<close> arises inside the model in one place
  only, from an escape in a text given to \<^verbatim>\<open>JSON.parse\<close>; such a string is kept as the list
  of its code units.
\<close>

subsection \<open>String primitives of the platform\<close>

text \<open>Line terminators and white space of ECMAScript that lie below \<open>0x100\<close>.\<close>

definition line_terminator :: "char \<Rightarrow> bool" where
  "line_terminator c \<longleftrightarrow> c = CHR 0x0A \<or> c = CHR 0x0D"

definition white_space :: "char \<Rightarrow> bool" where
  "white_space c \<longleftrightarrow>
     c = CHR 0x09 \<or> c = CHR 0x0A \<or> c = CHR 0x0B \<or> c = CHR 0x0C \<or> c = CHR 0x0D \<or>
     c = CHR 0x20 \<or> c = CHR 0xA0"

text \<open>
  \<^verbatim>\<open>String.prototype.toLowerCase\<close>: below \<open>0x100\<close> the letters with a lower-case form
  are \<open>A\<close> to \<open>Z\<close> and \<open>0xC0\<close> to \<open>0xDE\<close> without the multiplication sign \<open>0xD7\<close>; each
  maps to the code unit \<open>0x20\<close> above it.
\<close>

definition lower_unit :: "char \<Rightarrow> char" where
  "lower_unit c =
     (let n = (of_char c :: nat)
      in if (65 \<le> n \<and> n \<le> 90) \<or> (192 \<le> n \<and> n \<le> 222 \<and> n \<noteq> 215)
         then char_of (n + 32) else c)"

definition toLowerCase :: "string \<Rightarrow> string" where
  "toLowerCase s = map lower_unit s"

text \<open>
  \<^verbatim>\<open>s.substring(a, b)\<close> for non-negative integer arguments: the arguments are swapped
  when \<open>a > b\<close> and clamped to the length of \<open>s\<close>.
\<close>

definition substring :: "string \<Rightarrow> nat \<Rightarrow> nat \<Rightarrow> string" where
  "substring s a b = (let lo = min a b; hi = max a b in take (hi - lo) (drop lo s))"

text \<open>\<^verbatim>\<open>String.prototype.trim\<close>: white space is removed from both ends.\<close>

definition trim :: "string \<Rightarrow> string" where
  "trim s = rev (dropWhile white_space (rev (dropWhile white_space s)))"

fun startsWith :: "string \<Rightarrow> string \<Rightarrow> bool" where
  "startsWith s [] = True"
| "startsWith [] (p # ps) = False"
| "startsWith (c # cs) (p # ps) = (c = p \<and> startsWith cs ps)"

text \<open>\<^verbatim>\<open>s.includes(sub)\<close>: \<open>sub\<close> occurs in \<open>s\<close> as a contiguous run.\<close>

fun str_includes :: "string \<Rightarrow> string \<Rightarrow> bool" where
  "str_includes [] sub = (sub = [])"
| "str_includes (c # cs) sub = (startsWith (c # cs) sub \<or> str_includes cs sub)"

subsection \<open>Regular expressions\<close>

text \<open>
  The regular expressions of the service are alternatives of sequences of literal
  characters and of one greedy star over \<^verbatim>\<open>.\<close> or over \<^verbatim>\<open>[\s\S]\<close>. A \<^verbatim>\<open>regex\<close> keeps
  the alternatives in source order together with the flags \<^verbatim>\<open>i\<close> and \<^verbatim>\<open>s\<close>. None of them
  has the flag \<^verbatim>\<open>g\<close>, so a regular expression carries no state between uses.
\<close>

datatype char_class = Dot | AnyChar

datatype atom = Lit char | Star char_class

record regex =
  alternatives :: "atom list list"
  ignoreCase :: bool
  dotAll :: bool

text \<open>
  \<^verbatim>\<open>Canonicalize\<close> of the specification, without the flag \<^verbatim>\<open>u\<close>: under \<^verbatim>\<open>i\<close> a code unit
  is replaced by its upper-case form when that is one code unit, and a code unit from
  \<open>0x80\<close> on is never sent below \<open>0x80\<close>. Below \<open>0x100\<close> the upper-case forms of \<open>0xB5\<close> and
  \<open>0xFF\<close> lie above \<open>0xFF\<close> and are shared with no other code unit below \<open>0x100\<close>; \<open>0xDF\<close>
  has a two-unit upper-case form. The three stand for themselves here.
\<close>

definition canonicalize :: "bool \<Rightarrow> char \<Rightarrow> char" where
  "canonicalize ic c =
     (let n = (of_char c :: nat)
      in if ic \<and> ((97 \<le> n \<and> n \<le> 122) \<or> (224 \<le> n \<and> n \<le> 254 \<and> n \<noteq> 247))
         then char_of (n - 32) else c)"

fun class_matches :: "bool \<Rightarrow> char_class \<Rightarrow> char \<Rightarrow> bool" where
  "class_matches da Dot c = (da \<or> \<not> line_terminator c)"
| "class_matches da AnyChar c = True"

text \<open>
  The backtracking matcher at one position: the result is the matched text. A star takes
  as many characters as it can and gives them back one at a time.
\<close>

fun match_here :: "bool \<Rightarrow> bool \<Rightarrow> atom list \<Rightarrow> string \<Rightarrow> string option" where
  "match_here ic da [] s = Some []"
| "match_here ic da (Lit c # as) [] = None"
| "match_here ic da (Lit c # as) (x # xs) =
     (if canonicalize ic c = canonicalize ic x
      then map_option ((#) x) (match_here ic da as xs) else None)"
| "match_here ic da (Star k # as) [] = match_here ic da as []"
| "match_here ic da (Star k # as) (x # xs) =
     (if class_matches da k x
      then (case match_here ic da (Star k # as) xs of
              Some m \<Rightarrow> Some (x # m)
            | None \<Rightarrow> match_here ic da as (x # xs))
      else match_here ic da as (x # xs))"

fun match_alts :: "bool \<Rightarrow> bool \<Rightarrow> atom list list \<Rightarrow> string \<Rightarrow> string option" where
  "match_alts ic da [] s = None"
| "match_alts ic da (a # as) s =
     (case match_here ic da a s of Some m \<Rightarrow> Some m | None \<Rightarrow> match_alts ic da as s)"

fun search :: "bool \<Rightarrow> bool \<Rightarrow> atom list list \<Rightarrow> string \<Rightarrow> string option" where
  "search ic da alts [] = match_alts ic da alts []"
| "search ic da alts (x # xs) =
     (case match_alts ic da alts (x # xs) of Some m \<Rightarrow> Some m | None \<Rightarrow> search ic da alts xs)"

text \<open>
  \<^verbatim>\<open>str.match(re)\<close> without \<^verbatim>\<open>g\<close>: \<open>None\<close> is \<^verbatim>\<open>null\<close>, \<open>Some m\<close> is a match array
  whose element \<open>0\<close> is \<open>m\<close>. \<^verbatim>\<open>re.test(str)\<close> says whether there is a match.
\<close>

definition str_match :: "string \<Rightarrow> regex \<Rightarrow> string option" where
  "str_match s re = search (ignoreCase re) (dotAll re) (alternatives re) s"

definition regex_test :: "regex \<Rightarrow> string \<Rightarrow> bool" where
  "regex_test re s \<longleftrightarrow> str_match s re \<noteq> None"

definition lits :: "string \<Rightarrow> atom list" where
  "lits w = map Lit w"

subsection \<open>The refusal classifier\<close>

definition REFUSAL_PATTERNS :: "regex list" where
  "REFUSAL_PATTERNS =
    [\<lparr>alternatives = [lits ''i cannot'', lits ''i can't'', lits ''i'm unable'', lits ''i am unable''],
      ignoreCase = True, dotAll = False\<rparr>,
     \<lparr>alternatives = [lits ''i will not'', lits ''i won't''],
      ignoreCase = True, dotAll = False\<rparr>,
     \<lparr>alternatives = [lits ''inappropriate'', lits ''offensive'', lits ''harmful''],
      ignoreCase = True, dotAll = False\<rparr>,
     \<lparr>alternatives = [lits ''against my guidelines'', lits ''violates'' @ Star Dot # lits ''policy''],
      ignoreCase = True, dotAll = False\<rparr>,
     \<lparr>alternatives = [lits ''as an ai'', lits ''as a language model''],
      ignoreCase = True, dotAll = False\<rparr>,
     \<lparr>alternatives = [lits ''i'm not able to'', lits ''i am not able to''],
      ignoreCase = True, dotAll = False\<rparr>,
     \<lparr>alternatives = [lits ''cannot assist with'', lits ''can't help with''],
      ignoreCase = True, dotAll = False\<rparr>,
     \<lparr>alternatives = [lits ''explicit'', lits ''adult content'', lits ''nsfw''],
      ignoreCase = True, dotAll = False\<rparr>]"

text \<open>
  \<^verbatim>\<open>!response\<close> holds for the empty string; the first 200 code units are lower-cased and
  tested against each pattern in turn.
\<close>

definition isContentRefusal :: "string \<Rightarrow> bool" where
  "isContentRefusal response =
     (if response = [] \<or> length response < 10 then False
      else (let checkText = toLowerCase (substring response 0 200)
            in list_ex (\<lambda>pattern. regex_test pattern checkText) REFUSAL_PATTERNS))"

subsection \<open>The provider and the completion invoker\<close>

text \<open>
  A request is the argument object of \<^verbatim>\<open>groq.chat.completions.create\<close>; a message is
  its role and its content.
\<close>

record request =
  messages :: "(string \<times> string) list"
  model :: string
  temperature :: real
  max_tokens :: nat

text \<open>
  What the provider throws: an object whose \<^verbatim>\<open>message\<close> and \<^verbatim>\<open>code\<close> may be missing.
\<close>

record api_error =
  message :: "string option"
  code :: "string option"

text \<open>
  The provider is outside the program. It is a function of the requests issued before
  and of the request: \<open>Inl e\<close> when the call throws \<open>e\<close> (a completion without
  \<^verbatim>\<open>choices\<close> makes the read of \<^verbatim>\<open>choices[0]\<close> throw inside the same \<^verbatim>\<open>try\<close> and is
  an \<open>Inl\<close> too), \<open>Inr c\<close> when it returns, \<open>c\<close> being
  \<^verbatim>\<open>completion.choices[0]?.message?.content\<close>, \<open>None\<close> when that is missing. The log of
  requests is threaded through every operation, so the calls issued can be counted.
\<close>

type_synonym provider = "request list \<Rightarrow> request \<Rightarrow> api_error + string option"

definition chat_completions_create ::
  "provider \<Rightarrow> request \<Rightarrow> request list \<Rightarrow> (api_error + string option) \<times> request list" where
  "chat_completions_create provider req calls = (provider calls req, calls @ [req])"

text \<open>The errors the service throws to its callers: the class and the message.\<close>

datatype js_error = ContentModerationError string | Error string

definition MODELS_FAST :: string where "MODELS_FAST = ''llama-3.1-8b-instant''"
definition MODELS_BALANCED :: string where "MODELS_BALANCED = ''llama-3.3-70b-versatile''"
definition MODELS_MIXTRAL :: string where "MODELS_MIXTRAL = ''mixtral-8x7b-32768''"

definition FALLBACK_MODEL :: string where "FALLBACK_MODEL = ''llama-3.1-8b-instant''"

definition completion_request :: "string \<Rightarrow> string \<Rightarrow> string \<Rightarrow> request" where
  "completion_request systemPrompt userPrompt mdl =
     \<lparr>messages = [(''system'', systemPrompt), (''user'', userPrompt)],
      model = mdl, temperature = 0.7, max_tokens = 1024\<rparr>"

text \<open>\<^verbatim>\<open>content || ''\<close>: a missing content reads as the empty string.\<close>

definition content_or_empty :: "string option \<Rightarrow> string" where
  "content_or_empty c = (case c of None \<Rightarrow> [] | Some r \<Rightarrow> r)"

definition safety_message :: string where
  "safety_message = ''The AI could not process this content due to safety guidelines. Please ensure your content is appropriate and try again.''"

definition flagged_message :: string where
  "flagged_message = ''Your content was flagged by safety filters. Please modify your content and try again.''"

definition unavailable_message :: string where
  "unavailable_message = ''AI service temporarily unavailable''"

text \<open>The check for content filtering at the level of the API, in the \<^verbatim>\<open>catch\<close>.\<close>

definition api_content_filter :: "api_error \<Rightarrow> bool" where
  "api_content_filter error \<longleftrightarrow>
     (case message error of None \<Rightarrow> False | Some m \<Rightarrow> str_includes m ''content_filter'') \<or>
     (case message error of None \<Rightarrow> False | Some m \<Rightarrow> str_includes m ''moderation'') \<or>
     code error = Some ''content_policy_violation''"

text \<open>
  \<^verbatim>\<open>makeCompletion\<close>. A \<^verbatim>\<open>ContentModerationError\<close> thrown in the \<^verbatim>\<open>try\<close> is thrown again
  by the \<^verbatim>\<open>catch\<close>; an error of the provider is looked at, and the fallback model is
  tried when the model was another one. The writes to the console are left out.
\<close>

definition makeCompletion ::
  "provider \<Rightarrow> string \<Rightarrow> string \<Rightarrow> string \<Rightarrow> request list \<Rightarrow> (js_error + string) \<times> request list" where
  "makeCompletion provider systemPrompt userPrompt mdl calls =
     (case chat_completions_create provider (completion_request systemPrompt userPrompt mdl) calls of
        (Inr c, calls1) \<Rightarrow>
          (let response = content_or_empty c
           in if isContentRefusal response
              then (Inl (ContentModerationError safety_message), calls1)
              else (Inr response, calls1))
      | (Inl error, calls1) \<Rightarrow>
          if api_content_filter error
          then (Inl (ContentModerationError flagged_message), calls1)
          else if mdl \<noteq> FALLBACK_MODEL
          then (case chat_completions_create provider
                       (completion_request systemPrompt userPrompt FALLBACK_MODEL) calls1 of
                  (Inr c, calls2) \<Rightarrow>
                    (let fallbackResponse = content_or_empty c
                     in if isContentRefusal fallbackResponse
                        then (Inl (ContentModerationError safety_message), calls2)
                        else (Inr fallbackResponse, calls2))
                | (Inl fallbackError, calls2) \<Rightarrow> (Inl (Error unavailable_message), calls2))
          else (Inl (Error unavailable_message), calls1))"

subsection \<open>JSON values and \<^verbatim>\<open>JSON.parse\<close>\<close>

text \<open>
  \<^verbatim>\<open>JSON.parse\<close> is the platform's; it is modelled after the JSON grammar (ECMA-404), as a
  lexer followed by a pushdown recogniser over the tokens. A number is kept as its
  lexeme, so that no floating point is needed.

  An escape \<^verbatim>\<open>\uXXXX\<close> can name any code unit, so the strings of a parsed value are not all
  8-bit strings. A code unit is an integer from \<open>0\<close> to \<open>0xFFFF\<close>. A string whose code units
  all lie below \<open>0x100\<close> is a \<open>JString\<close>; a string with a code unit from \<open>0x100\<close> on is a
  \<open>JWide\<close>, the list of its code units. In the same
  way an object is a \<open>JObject\<close> when each of its keys lies below \<open>0x100\<close>, and a
  \<open>JWideObject\<close>, with every key as the list of its code units, when one does not. The
  members of an object stand in the order in which the platform enumerates them.
\<close>

datatype json =
    JNull
  | JBool bool
  | JNumber string
  | JString string
  | JWide "int list"
  | JArray "json list"
  | JObject "(string \<times> json) list"
  | JWideObject "(int list \<times> json) list"

datatype token =
    TLBracket | TRBracket | TLBrace | TRBrace | TComma | TColon
  | TString "int list" | TNumber string | TTrue | TFalse | TNull

text \<open>The platform throws a \<^verbatim>\<open>SyntaxError\<close> for a text that is no JSON text.\<close>

datatype parse_failure = SyntaxError

definition is_digit :: "char \<Rightarrow> bool" where
  "is_digit c \<longleftrightarrow> 48 \<le> (of_char c :: nat) \<and> (of_char c :: nat) \<le> 57"

definition hex_value :: "char \<Rightarrow> int option" where
  "hex_value c =
     (let n = (of_char c :: int)
      in if 48 \<le> n \<and> n \<le> 57 then Some (n - 48)
         else if 65 \<le> n \<and> n \<le> 70 then Some (n - 55)
         else if 97 \<le> n \<and> n \<le> 102 then Some (n - 87)
         else None)"

text \<open>The code unit of \<^verbatim>\<open>\uXXXX\<close>, from its four digits; \<open>None\<close> when one is no digit.\<close>

definition unicode_escape :: "char \<Rightarrow> char \<Rightarrow> char \<Rightarrow> char \<Rightarrow> int option" where
  "unicode_escape a b c d =
     (case (hex_value a, hex_value b, hex_value c, hex_value d) of
        (Some h3, Some h2, Some h1, Some h0) \<Rightarrow> Some (4096 * h3 + 256 * h2 + 16 * h1 + h0)
      | _ \<Rightarrow> None)"

definition simple_escape :: "char \<Rightarrow> int option" where
  "simple_escape e =
     (if e = CHR 0x22 then Some 0x22
      else if e = CHR 0x5C then Some 0x5C
      else if e = CHR ''/'' then Some 0x2F
      else if e = CHR ''b'' then Some 0x08
      else if e = CHR ''f'' then Some 0x0C
      else if e = CHR ''n'' then Some 0x0A
      else if e = CHR ''r'' then Some 0x0D
      else if e = CHR ''t'' then Some 0x09
      else None)"

text \<open>
  The body of a string, after its opening quote: the decoded code units (gathered in
  reverse) and the text after the closing quote. A control character below \<open>0x20\<close> may
  not stand unescaped.
\<close>

fun scan_string :: "int list \<Rightarrow> string \<Rightarrow> parse_failure + (int list \<times> string)" where
  "scan_string acc [] = Inl SyntaxError"
| "scan_string acc (c # cs) =
     (if c = CHR 0x22 then Inr (rev acc, cs)
      else if c = CHR 0x5C then
        (case cs of
           [] \<Rightarrow> Inl SyntaxError
         | e # r \<Rightarrow>
             if e = CHR ''u'' then
               (case r of
                  h3 # h2 # h1 # h0 # rest \<Rightarrow>
                    (case unicode_escape h3 h2 h1 h0 of
                       None \<Rightarrow> Inl SyntaxError
                     | Some u \<Rightarrow> scan_string (u # acc) rest)
                | _ \<Rightarrow> Inl SyntaxError)
             else
               (case simple_escape e of
                  None \<Rightarrow> Inl SyntaxError
                | Some u \<Rightarrow> scan_string (u # acc) r))
      else if (of_char c :: nat) < 32 then Inl SyntaxError
      else scan_string (of_char c # acc) cs)"

text \<open>
  A number: \<^verbatim>\<open>-? (0 | [1-9][0-9]*) (. [0-9]+)? ([eE] [+-]? [0-9]+)?\<close>. The lexer takes the
  longest run of characters that occur in numbers and checks the run as a whole: a number
  followed by one more such character is no JSON text either way.
\<close>

definition number_char :: "char \<Rightarrow> bool" where
  "number_char c \<longleftrightarrow>
     is_digit c \<or> c = CHR ''+'' \<or> c = CHR ''-'' \<or> c = CHR ''.'' \<or> c = CHR ''e'' \<or> c = CHR ''E''"

definition valid_exponent :: "string \<Rightarrow> bool" where
  "valid_exponent s =
     (case s of
        [] \<Rightarrow> True
      | e # r \<Rightarrow>
          (e = CHR ''e'' \<or> e = CHR ''E'') \<and>
          (let ds = (case r of
                       [] \<Rightarrow> []
                     | g # t \<Rightarrow> if g = CHR ''+'' \<or> g = CHR ''-'' then t else r)
           in ds \<noteq> [] \<and> list_all is_digit ds))"

definition valid_fraction :: "string \<Rightarrow> bool" where
  "valid_fraction s =
     (case s of
        [] \<Rightarrow> True
      | p # r \<Rightarrow>
          if p = CHR ''.''
          then takeWhile is_digit r \<noteq> [] \<and> valid_exponent (dropWhile is_digit r)
          else valid_exponent s)"

definition valid_number :: "string \<Rightarrow> bool" where
  "valid_number s =
     (let u = (case s of [] \<Rightarrow> [] | g # t \<Rightarrow> if g = CHR ''-'' then t else s);
          ip = takeWhile is_digit u
      in ip \<noteq> [] \<and> (hd ip \<noteq> CHR ''0'' \<or> ip = ''0'') \<and> valid_fraction (dropWhile is_digit u))"

definition json_space :: "char \<Rightarrow> bool" where
  "json_space c \<longleftrightarrow> c = CHR 0x20 \<or> c = CHR 0x09 \<or> c = CHR 0x0A \<or> c = CHR 0x0D"

definition punctuation :: "char \<Rightarrow> token option" where
  "punctuation c =
     (if c = CHR ''['' then Some TLBracket
      else if c = CHR '']'' then Some TRBracket
      else if c = CHR ''{'' then Some TLBrace
      else if c = CHR ''}'' then Some TRBrace
      else if c = CHR '','' then Some TComma
      else if c = CHR '':'' then Some TColon
      else None)"

definition cons_token :: "token \<Rightarrow> parse_failure + token list \<Rightarrow> parse_failure + token list" where
  "cons_token t r = (case r of Inl f \<Rightarrow> Inl f | Inr ts \<Rightarrow> Inr (t # ts))"

lemma scan_string_shorter:
  "scan_string acc s = Inr (str, rest) \<Longrightarrow> length rest < length s"
proof (induction acc s rule: scan_string.induct)
  case (1 acc)
  then show ?case by simp
next
  case (2 acc c cs)
  show ?case
  proof (cases "c = CHR 0x22")
    case True
    with "2.prems" show ?thesis by simp
  next
    case quote: False
    show ?thesis
    proof (cases "c = CHR 0x5C")
      case False
      with quote "2.prems" "2.IH"(3) show ?thesis
        by (fastforce split: if_splits)
    next
      case backslash: True
      show ?thesis
      proof (cases cs)
        case Nil
        with "2.prems" quote backslash show ?thesis by simp
      next
        case (Cons e r)
        show ?thesis
        proof (cases "e = CHR ''u''")
          case False
          with "2.prems" quote backslash Cons obtain u
            where "simple_escape e = Some u" "scan_string (u # acc) r = Inr (str, rest)"
            by (auto split: option.splits)
          with "2.IH"(2) [OF quote backslash Cons False] have "length rest < length r"
            by simp
          with Cons show ?thesis by simp
        next
          case u: True
          with "2.prems" quote backslash Cons obtain h3 h2 h1 h0 t b
            where r: "r = h3 # h2 # h1 # h0 # t"
              and b: "unicode_escape h3 h2 h1 h0 = Some b"
              and s: "scan_string (b # acc) t = Inr (str, rest)"
            by (auto split: list.splits option.splits)
          from "2.IH"(1) [OF quote backslash Cons u r refl refl refl b s]
          have "length rest < length t" .
          with Cons r show ?thesis by simp
        qed
      qed
    qed
  qed
qed

function lex :: "string \<Rightarrow> parse_failure + token list" where
  "lex [] = Inr []"
| "lex (c # cs) =
     (if json_space c then lex cs
      else case punctuation c of
        Some t \<Rightarrow> cons_token t (lex cs)
      | None \<Rightarrow>
          if c = CHR 0x22 then
            (case scan_string [] cs of
               Inl f \<Rightarrow> Inl f
             | Inr (str, rest) \<Rightarrow> cons_token (TString str) (lex rest))
          else if number_char c then
            (if valid_number (c # takeWhile number_char cs)
             then cons_token (TNumber (c # takeWhile number_char cs)) (lex (dropWhile number_char cs))
             else Inl SyntaxError)
          else if startsWith (c # cs) ''true'' then cons_token TTrue (lex (drop 3 cs))
          else if startsWith (c # cs) ''false'' then cons_token TFalse (lex (drop 4 cs))
          else if startsWith (c # cs) ''null'' then cons_token TNull (lex (drop 3 cs))
          else Inl SyntaxError)"
  by pat_completeness auto
termination
proof (relation "measure length")
  fix c cs x2 x y
  assume "scan_string [] cs = Inr x2" "(x, y) = x2"
  then have "scan_string [] cs = Inr (x, y)" by simp
  then show "(y, c # cs) \<in> measure length"
    using scan_string_shorter [of "[]" cs x y] by simp
qed (auto simp: less_Suc_eq_le length_dropWhile_le)

text \<open>
  A string value from its code units, and an object from its members, as 8-bit strings
  where they are.
\<close>

definition narrow :: "int list \<Rightarrow> bool" where
  "narrow us \<longleftrightarrow> list_all (\<lambda>u. u < 256) us"

definition json_string :: "int list \<Rightarrow> json" where
  "json_string us = (if narrow us then JString (map char_of us) else JWide us)"

definition json_object :: "(int list \<times> json) list \<Rightarrow> json" where
  "json_object ms =
     (if list_all (\<lambda>m. narrow (fst m)) ms
      then JObject (map (\<lambda>m. (map char_of (fst m), snd m)) ms)
      else JWideObject ms)"

text \<open>
  The members of an object as the platform keeps them. A key that is there already keeps
  its place and takes the new value. A new key that is an array index (a decimal number
  below \<open>2\<^sup>3\<^sup>2 - 1\<close> in its canonical form) goes among the array indices, which stand
  first in ascending order; any other new key goes to the end.
\<close>

definition array_index :: "int list \<Rightarrow> int option" where
  "array_index k =
     (if k \<noteq> [] \<and> list_all (\<lambda>u. 48 \<le> u \<and> u \<le> 57) k \<and> (hd k \<noteq> 48 \<or> k = [48]) \<and>
         foldl (\<lambda>a u. 10 * a + (u - 48)) 0 k < 4294967295
      then Some (foldl (\<lambda>a u. 10 * a + (u - 48)) 0 k) else None)"

definition stands_before :: "int list \<Rightarrow> int list \<Rightarrow> bool" where
  "stands_before k k' =
     (case array_index k of
        None \<Rightarrow> False
      | Some i \<Rightarrow> (case array_index k' of None \<Rightarrow> True | Some j \<Rightarrow> i < j))"

fun insert_member :: "int list \<Rightarrow> json \<Rightarrow> (int list \<times> json) list \<Rightarrow> (int list \<times> json) list" where
  "insert_member k v [] = [(k, v)]"
| "insert_member k v (m # ms) =
     (if stands_before k (fst m) then (k, v) # m # ms else m # insert_member k v ms)"

definition put_member :: "int list \<Rightarrow> json \<Rightarrow> (int list \<times> json) list \<Rightarrow> (int list \<times> json) list" where
  "put_member k v ms =
     (if k \<in> set (map fst ms)
      then map (\<lambda>m. if fst m = k then (k, v) else m) ms
      else insert_member k v ms)"

text \<open>
  The recogniser: a stack of the arrays and objects that are open (the elements of an
  array so far, last first; the members of an object so far and the key whose value is
  awaited), and what may come next.
\<close>

datatype frame = InArray "json list" | InObject "(int list \<times> json) list" "int list option"

datatype expect = Value | ValueOrClose | Key | KeyOrClose | Colon | CommaOrClose | Done json

fun deliver :: "json \<Rightarrow> frame list \<Rightarrow> (frame list \<times> expect) option" where
  "deliver v [] = Some ([], Done v)"
| "deliver v (InArray es # st) = Some (InArray (v # es) # st, CommaOrClose)"
| "deliver v (InObject ms (Some k) # st) = Some (InObject (put_member k v ms) None # st, CommaOrClose)"
| "deliver v (InObject ms None # st) = None"

fun close_array :: "frame list \<Rightarrow> (frame list \<times> expect) option" where
  "close_array (InArray es # st) = deliver (JArray (rev es)) st"
| "close_array st = None"

fun close_object :: "frame list \<Rightarrow> (frame list \<times> expect) option" where
  "close_object (InObject ms None # st) = deliver (json_object ms) st"
| "close_object st = None"

fun start_value :: "frame list \<Rightarrow> token \<Rightarrow> (frame list \<times> expect) option" where
  "start_value st TLBracket = Some (InArray [] # st, ValueOrClose)"
| "start_value st TLBrace = Some (InObject [] None # st, KeyOrClose)"
| "start_value st (TString s) = deliver (json_string s) st"
| "start_value st (TNumber n) = deliver (JNumber n) st"
| "start_value st TTrue = deliver (JBool True) st"
| "start_value st TFalse = deliver (JBool False) st"
| "start_value st TNull = deliver JNull st"
| "start_value st t = None"

fun take_key :: "frame list \<Rightarrow> token \<Rightarrow> (frame list \<times> expect) option" where
  "take_key (InObject ms None # st) (TString k) = Some (InObject ms (Some k) # st, Colon)"
| "take_key st t = None"

fun step :: "frame list \<times> expect \<Rightarrow> token \<Rightarrow> (frame list \<times> expect) option" where
  "step (st, Value) t = start_value st t"
| "step (st, ValueOrClose) t = (if t = TRBracket then close_array st else start_value st t)"
| "step (st, Key) t = take_key st t"
| "step (st, KeyOrClose) t = (if t = TRBrace then close_object st else take_key st t)"
| "step (st, Colon) t = (if t = TColon then Some (st, Value) else None)"
| "step (st, CommaOrClose) t =
     (case st of
        InArray es # st' \<Rightarrow>
          if t = TComma then Some (st, Value)
          else if t = TRBracket then close_array st else None
      | InObject ms k # st' \<Rightarrow>
          if t = TComma then Some (st, Key)
          else if t = TRBrace then close_object st else None
      | [] \<Rightarrow> None)"
| "step (st, Done v) t = None"

fun run :: "frame list \<times> expect \<Rightarrow> token list \<Rightarrow> (frame list \<times> expect) option" where
  "run ps [] = Some ps"
| "run ps (t # ts) = (case step ps t of None \<Rightarrow> None | Some ps' \<Rightarrow> run ps' ts)"

definition JSON_parse :: "string \<Rightarrow> parse_failure + json" where
  "JSON_parse text =
     (case lex text of
        Inl f \<Rightarrow> Inl f
      | Inr ts \<Rightarrow>
          (case run ([], Value) ts of
             Some ([], Done v) \<Rightarrow> Inr v
           | _ \<Rightarrow> Inl SyntaxError))"

subsection \<open>The content operations\<close>

text \<open>
  Every operation builds its two prompts, calls \<^verbatim>\<open>makeCompletion\<close> and reads the
  completion. Optional parameters are given by the caller here (the routes pass each of
  them). A count is an \<^typ>\<open>int\<close>; \<^verbatim>\<open>Number_toString\<close> is its decimal form, which is the
  platform's for integers below \<open>10\<^sup>2\<^sup>1\<close> in absolute value. From \<open>10\<^sup>2\<^sup>1\<close> on the platform
  prints an exponent, and a count that is no integer (a fraction, \<^verbatim>\<open>NaN\<close>, an infinity) is
  no \<^typ>\<open>int\<close>: the prompts below are those of integer counts below \<open>10\<^sup>2\<^sup>1\<close>.
\<close>

definition nl :: string where
  "nl = [CHR 0x0A]"

fun nat_digits :: "nat \<Rightarrow> string" where
  "nat_digits n =
     (if n < 10 then [char_of (48 + n)] else nat_digits (n div 10) @ [char_of (48 + n mod 10)])"

definition Number_toString :: "int \<Rightarrow> string" where
  "Number_toString n = (if n < 0 then CHR ''-'' # nat_digits (nat (- n)) else nat_digits (nat n))"

text \<open>\<^verbatim>\<open>arr.join(sep)\<close> on an array of strings.\<close>

fun join :: "string list \<Rightarrow> string \<Rightarrow> string" where
  "join [] sep = []"
| "join [x] sep = x"
| "join (x # y # ys) sep = x @ sep @ join (y # ys) sep"

text \<open>
  \<^verbatim>\<open>arr.slice(0, n)\<close> for an integer \<open>n\<close>: a negative \<open>n\<close> counts from the end.
\<close>

definition slice0 :: "'a list \<Rightarrow> int \<Rightarrow> 'a list" where
  "slice0 xs n = (if n < 0 then take (length xs - nat (- n)) xs else take (nat n) xs)"

text \<open>\<^verbatim>\<open>/\[.*\]/s\<close> and \<^verbatim>\<open>/\{[\s\S]*\}/\<close>.\<close>

definition array_regex :: regex where
  "array_regex =
     \<lparr>alternatives = [[Lit (CHR ''[''), Star Dot, Lit (CHR '']'')]],
      ignoreCase = False, dotAll = True\<rparr>"

definition object_regex :: regex where
  "object_regex =
     \<lparr>alternatives = [[Lit (CHR ''{''), Star AnyChar, Lit (CHR ''}'')]],
      ignoreCase = False, dotAll = False\<rparr>"

subsubsection \<open>Tags\<close>

definition generateTags_systemPrompt :: "int \<Rightarrow> string" where
  "generateTags_systemPrompt maxTags =
      ''You are a content tagging expert. Extract the most relevant tags from the given blog content.'' @ nl @
      [] @ nl @
      ''Rules:'' @ nl @
      ''- Return ONLY a JSON array of strings, no explanation'' @ nl @
      ''- Tags should be lowercase, single words or short phrases'' @ nl @
      ''- Maximum '' @ Number_toString maxTags @ '' tags'' @ nl @
      ''- Focus on main topics, technologies, concepts'' @ nl @
      ''- Make tags SEO-friendly and searchable'' @ nl @
      [] @ nl @
      ''Example output: [\"javascript\", \"web development\", \"react\", \"frontend\", \"tutorial\"]''"

definition generateTags_userPrompt :: "string \<Rightarrow> string" where
  "generateTags_userPrompt content =
      ''Extract tags from this blog content:'' @ nl @
      [] @ nl @
      substring content 0 3000"

text \<open>
  \<^verbatim>\<open>tag.toLowerCase().trim()\<close> on each element: an element that is not a string has no
  method \<^verbatim>\<open>toLowerCase\<close>, the call throws a \<^verbatim>\<open>TypeError\<close>, here \<open>None\<close>. For an 8-bit string
  the result is computed, a \<open>Tag\<close>. For a string with a code unit from \<open>0x100\<close> on the two
  methods succeed as well; their result is not computed here: \<open>WideTag us\<close> stands for the
  lower-cased and trimmed form of the string with the code units \<open>us\<close>.
\<close>

datatype tag = Tag string | WideTag "int list"

fun lower_trim_all :: "json list \<Rightarrow> tag list option" where
  "lower_trim_all [] = Some []"
| "lower_trim_all (JString tag # ts) =
     (case lower_trim_all ts of
        None \<Rightarrow> None
      | Some r \<Rightarrow> Some (Tag (trim (toLowerCase tag)) # r))"
| "lower_trim_all (JWide tag # ts) =
     (case lower_trim_all ts of None \<Rightarrow> None | Some r \<Rightarrow> Some (WideTag tag # r))"
| "lower_trim_all (t # ts) = None"

text \<open>
  The \<^verbatim>\<open>catch\<close> of the operation takes every error thrown in its \<^verbatim>\<open>try\<close>: those of
  \<^verbatim>\<open>makeCompletion\<close>, the \<^verbatim>\<open>SyntaxError\<close> of \<^verbatim>\<open>JSON.parse\<close> and the \<^verbatim>\<open>TypeError\<close> of a
  method that the value does not have. A text that \<^verbatim>\<open>JSON.parse\<close> accepts and that begins
  with a bracket is an array; on any other value \<^verbatim>\<open>slice\<close> or \<^verbatim>\<open>map\<close> is missing.
\<close>

definition generateTags ::
  "provider \<Rightarrow> string \<Rightarrow> int \<Rightarrow> request list \<Rightarrow> (js_error + tag list) \<times> request list" where
  "generateTags provider content maxTags calls =
     (let systemPrompt = generateTags_systemPrompt maxTags;
          userPrompt = generateTags_userPrompt content
      in case makeCompletion provider systemPrompt userPrompt MODELS_FAST calls of
           (Inl error, calls') \<Rightarrow> (Inr [], calls')
         | (Inr response, calls') \<Rightarrow>
             (case str_match response array_regex of
                Some jsonMatch \<Rightarrow>
                  (case JSON_parse jsonMatch of
                     Inr (JArray tags) \<Rightarrow>
                       (case lower_trim_all (slice0 tags maxTags) of
                          Some r \<Rightarrow> (Inr r, calls')
                        | None \<Rightarrow> (Inr [], calls'))
                   | _ \<Rightarrow> (Inr [], calls'))
              | None \<Rightarrow> (Inr [], calls')))"

subsubsection \<open>Summary\<close>

definition lengthInstructions :: "(string \<times> string) list" where
  "lengthInstructions =
     [(''short'', ''1-2 sentences, under 50 words''),
      (''medium'', ''A paragraph, around 100 words''),
      (''long'', ''Detailed summary, around 200 words'')]"

text \<open>
  \<^verbatim>\<open>lengthInstructions[length]\<close> finds the properties that the object inherits from
  \<^verbatim>\<open>Object.prototype\<close> too. Each of them is truthy, and the template prints it: a built-in
  function as \<^verbatim>\<open>function name() { [native code] }\<close>, and \<^verbatim>\<open>__proto__\<close>, which is
  \<^verbatim>\<open>Object.prototype\<close> itself, as \<^verbatim>\<open>[object Object]\<close>.
\<close>

definition native_function :: "string \<Rightarrow> string" where
  "native_function name = ''function '' @ name @ ''() { [native code] }''"

definition Object_prototype :: "(string \<times> string) list" where
  "Object_prototype =
     [(''constructor'', native_function ''Object''),
      (''__defineGetter__'', native_function ''__defineGetter__''),
      (''__defineSetter__'', native_function ''__defineSetter__''),
      (''hasOwnProperty'', native_function ''hasOwnProperty''),
      (''__lookupGetter__'', native_function ''__lookupGetter__''),
      (''__lookupSetter__'', native_function ''__lookupSetter__''),
      (''isPrototypeOf'', native_function ''isPrototypeOf''),
      (''propertyIsEnumerable'', native_function ''propertyIsEnumerable''),
      (''toString'', native_function ''toString''),
      (''valueOf'', native_function ''valueOf''),
      (''__proto__'', ''[object Object]''),
      (''toLocaleString'', native_function ''toLocaleString'')]"

text \<open>\<^verbatim>\<open>lengthInstructions[length] || lengthInstructions.short\<close>.\<close>

definition generateSummary_systemPrompt :: "string \<Rightarrow> string" where
  "generateSummary_systemPrompt len =
      ''You are a content summarizer. Create a '' @ len @ '' summary.'' @ nl @
      [] @ nl @
      ''Rules:'' @ nl @
      ''- Length: '' @
        (case map_of lengthInstructions len of
           Some i \<Rightarrow> i
         | None \<Rightarrow>
             (case map_of Object_prototype len of
                Some p \<Rightarrow> p
              | None \<Rightarrow> ''1-2 sentences, under 50 words'')) @ nl @
      ''- Capture the main points and key takeaways'' @ nl @
      ''- Write in third person'' @ nl @
      ''- Be concise and informative'' @ nl @
      ''- Return ONLY the summary text, no labels or prefixes''"

definition generateSummary_userPrompt :: "string \<Rightarrow> string" where
  "generateSummary_userPrompt content =
      ''Summarize this blog content:'' @ nl @
      [] @ nl @
      substring content 0 4000"

definition generateSummary ::
  "provider \<Rightarrow> string \<Rightarrow> string \<Rightarrow> request list \<Rightarrow> (js_error + string) \<times> request list" where
  "generateSummary provider content len calls =
     makeCompletion provider (generateSummary_systemPrompt len)
       (generateSummary_userPrompt content) MODELS_FAST calls"

subsubsection \<open>Titles\<close>

definition generateTitles_systemPrompt :: "int \<Rightarrow> string" where
  "generateTitles_systemPrompt count =
      ''You are a headline expert. Generate catchy, SEO-optimized blog titles.'' @ nl @
      [] @ nl @
      ''Rules:'' @ nl @
      ''- Return ONLY a JSON array of strings'' @ nl @
      ''- Generate exactly '' @ Number_toString count @ '' different title options'' @ nl @
      ''- Titles should be engaging and click-worthy'' @ nl @
      ''- Keep titles under 70 characters'' @ nl @
      ''- Use power words and numbers when appropriate'' @ nl @
      ''- Vary the style (question, how-to, listicle, etc.)'' @ nl @
      [] @ nl @
      ''Example output: [\"10 Ways to Master JavaScript\", \"The Ultimate Guide to Web Development\", \"Why React is Taking Over in 2024\"]''"

definition generateTitles_userPrompt :: "string \<Rightarrow> int \<Rightarrow> string" where
  "generateTitles_userPrompt content count =
      ''Generate '' @ Number_toString count @ '' title options for this blog:'' @ nl @
      [] @ nl @
      substring content 0 2000"

definition generateTitles ::
  "provider \<Rightarrow> string \<Rightarrow> int \<Rightarrow> request list \<Rightarrow> (js_error + json list) \<times> request list" where
  "generateTitles provider content count calls =
     (let systemPrompt = generateTitles_systemPrompt count;
          userPrompt = generateTitles_userPrompt content count
      in case makeCompletion provider systemPrompt userPrompt MODELS_FAST calls of
           (Inl error, calls') \<Rightarrow> (Inr [], calls')
         | (Inr response, calls') \<Rightarrow>
             (case str_match response array_regex of
                Some jsonMatch \<Rightarrow>
                  (case JSON_parse jsonMatch of
                     Inr (JArray titles) \<Rightarrow> (Inr (slice0 titles count), calls')
                   | _ \<Rightarrow> (Inr [], calls'))
              | None \<Rightarrow> (Inr [], calls')))"

subsubsection \<open>The writing assistant\<close>

definition expandText_systemPrompt :: "string \<Rightarrow> string" where
  "expandText_systemPrompt tone =
      ''You are a writing assistant. Expand the given text into a fuller, more detailed version.'' @ nl @
      [] @ nl @
      ''Rules:'' @ nl @
      ''- Maintain the original meaning and intent'' @ nl @
      ''- Use a '' @ tone @ '' tone'' @ nl @
      ''- Add relevant details, examples, or explanations'' @ nl @
      ''- Double or triple the length naturally'' @ nl @
      ''- Return ONLY the expanded text, no labels''"

definition expandText_userPrompt :: "string \<Rightarrow> string" where
  "expandText_userPrompt text = text"

definition expandText ::
  "provider \<Rightarrow> string \<Rightarrow> string \<Rightarrow> request list \<Rightarrow> (js_error + string) \<times> request list" where
  "expandText provider text tone calls =
     makeCompletion provider (expandText_systemPrompt tone) (expandText_userPrompt text)
       MODELS_BALANCED calls"

definition improveText_systemPrompt :: string where
  "improveText_systemPrompt =
      ''You are a professional editor. Improve the given text for clarity, grammar, and style.'' @ nl @
      [] @ nl @
      ''Return a JSON object with:'' @ nl @
      ''- \"improved\": the improved version of the text'' @ nl @
      ''- \"changes\": array of changes made (max 5)'' @ nl @
      [] @ nl @
      ''Example output:'' @ nl @
      ''{'' @ nl @
      ''  \"improved\": \"The improved text here...\",'' @ nl @
      ''  \"changes\": [\"Fixed grammar in sentence 2\", \"Improved clarity\", \"Added transition words\"]'' @ nl @
      ''}''"

definition improveText_userPrompt :: "string \<Rightarrow> string" where
  "improveText_userPrompt text = text"

text \<open>
  The value returned is what \<^verbatim>\<open>JSON.parse\<close> gives for the span, as it is; the default
  object echoes the text.
\<close>

definition improveText ::
  "provider \<Rightarrow> string \<Rightarrow> request list \<Rightarrow> (js_error + json) \<times> request list" where
  "improveText provider text calls =
     (case makeCompletion provider improveText_systemPrompt (improveText_userPrompt text)
             MODELS_BALANCED calls of
        (Inl error, calls') \<Rightarrow>
          (Inr (JObject [(''improved'', JString text), (''changes'', JArray [])]), calls')
      | (Inr response, calls') \<Rightarrow>
          (case str_match response object_regex of
             Some jsonMatch \<Rightarrow>
               (case JSON_parse jsonMatch of
                  Inr v \<Rightarrow> (Inr v, calls')
                | Inl f \<Rightarrow>
                    (Inr (JObject [(''improved'', JString text), (''changes'', JArray [])]), calls'))
           | None \<Rightarrow>
               (Inr (JObject [(''improved'', JString text), (''changes'', JArray [])]), calls')))"

definition changeTone_systemPrompt :: "string \<Rightarrow> string" where
  "changeTone_systemPrompt targetTone =
      ''You are a writing assistant. Rewrite the given text in a '' @ targetTone @ '' tone.'' @ nl @
      [] @ nl @
      ''Rules:'' @ nl @
      ''- Keep the same meaning and information'' @ nl @
      ''- Adjust vocabulary and sentence structure for the '' @ targetTone @ '' tone'' @ nl @
      ''- Return ONLY the rewritten text''"

definition changeTone_userPrompt :: "string \<Rightarrow> string" where
  "changeTone_userPrompt text = text"

definition changeTone ::
  "provider \<Rightarrow> string \<Rightarrow> string \<Rightarrow> request list \<Rightarrow> (js_error + string) \<times> request list" where
  "changeTone provider text targetTone calls =
     makeCompletion provider (changeTone_systemPrompt targetTone) (changeTone_userPrompt text)
       MODELS_FAST calls"

definition continueWriting_systemPrompt :: "int \<Rightarrow> string" where
  "continueWriting_systemPrompt sentences =
      ''You are a writing assistant. Continue the given text naturally.'' @ nl @
      [] @ nl @
      ''Rules:'' @ nl @
      ''- Add approximately '' @ Number_toString sentences @ '' more sentences'' @ nl @
      ''- Match the existing writing style and tone'' @ nl @
      ''- Continue the thought or topic logically'' @ nl @
      ''- Return ONLY the continuation (not the original text)''"

definition continueWriting_userPrompt :: "string \<Rightarrow> string" where
  "continueWriting_userPrompt text = text"

definition continueWriting ::
  "provider \<Rightarrow> string \<Rightarrow> int \<Rightarrow> request list \<Rightarrow> (js_error + string) \<times> request list" where
  "continueWriting provider text sentences calls =
     makeCompletion provider (continueWriting_systemPrompt sentences)
       (continueWriting_userPrompt text) MODELS_BALANCED calls"

subsubsection \<open>Grammar check\<close>

definition grammarCheck_systemPrompt :: string where
  "grammarCheck_systemPrompt =
      ''You are a grammar and spelling checker. Analyze the text for errors.'' @ nl @
      [] @ nl @
      ''Return a JSON object with:'' @ nl @
      ''- \"corrected\": the corrected text'' @ nl @
      ''- \"errors\": array of errors found, each with:'' @ nl @
      ''  - \"original\": the incorrect text'' @ nl @
      ''  - \"correction\": the fix'' @ nl @
      ''  - \"type\": \"grammar\" | \"spelling\" | \"punctuation\" | \"style\"'' @ nl @
      [] @ nl @
      ''If no errors found, return empty errors array.'' @ nl @
      [] @ nl @
      ''Example:'' @ nl @
      ''{'' @ nl @
      ''  \"corrected\": \"The cat sat on the mat.\",'' @ nl @
      ''  \"errors\": [{\"original\": \"sitted\", \"correction\": \"sat\", \"type\": \"grammar\"}]'' @ nl @
      ''}''"

definition grammarCheck_userPrompt :: "string \<Rightarrow> string" where
  "grammarCheck_userPrompt text = text"

definition grammarCheck ::
  "provider \<Rightarrow> string \<Rightarrow> request list \<Rightarrow> (js_error + json) \<times> request list" where
  "grammarCheck provider text calls =
     (case makeCompletion provider grammarCheck_systemPrompt (grammarCheck_userPrompt text)
             MODELS_FAST calls of
        (Inl error, calls') \<Rightarrow>
          (Inr (JObject [(''corrected'', JString text), (''errors'', JArray [])]), calls')
      | (Inr response, calls') \<Rightarrow>
          (case str_match response object_regex of
             Some jsonMatch \<Rightarrow>
               (case JSON_parse jsonMatch of
                  Inr v \<Rightarrow> (Inr v, calls')
                | Inl f \<Rightarrow>
                    (Inr (JObject [(''corrected'', JString text), (''errors'', JArray [])]), calls'))
           | None \<Rightarrow>
               (Inr (JObject [(''corrected'', JString text), (''errors'', JArray [])]), calls')))"

subsubsection \<open>Category\<close>

definition categories :: "string list" where
  "categories =
     [''Technology'', ''Programming'', ''Web Development'', ''Mobile Development'',
      ''Data Science'', ''AI/Machine Learning'', ''DevOps'', ''Cybersecurity'',
      ''Business'', ''Marketing'', ''Design'', ''Lifestyle'', ''Travel'', ''Food'',
      ''Health'', ''Education'', ''Finance'', ''Entertainment'', ''Sports'', ''Other'']"

definition getCategory_systemPrompt :: string where
  "getCategory_systemPrompt =
      ''You are a content classifier. Classify the given content into ONE of these categories:'' @ nl @
      join categories '', '' @ nl @
      [] @ nl @
      ''Rules:'' @ nl @
      ''- Return ONLY the category name, nothing else'' @ nl @
      ''- Choose the most relevant category'' @ nl @
      ''- If unsure, use \"Other\"''"

definition getCategory_userPrompt :: "string \<Rightarrow> string" where
  "getCategory_userPrompt content =
      ''Classify this content:'' @ nl @
      [] @ nl @
      substring content 0 2000"

text \<open>\<^verbatim>\<open>match || 'Other'\<close>: a missing or empty match gives \<^verbatim>\<open>'Other'\<close>.\<close>

definition getCategory ::
  "provider \<Rightarrow> string \<Rightarrow> request list \<Rightarrow> (js_error + string) \<times> request list" where
  "getCategory provider content calls =
     (case makeCompletion provider getCategory_systemPrompt (getCategory_userPrompt content)
             MODELS_FAST calls of
        (Inl error, calls') \<Rightarrow> (Inr ''Other'', calls')
      | (Inr response, calls') \<Rightarrow>
          (let category = trim response;
               match = find (\<lambda>c. toLowerCase c = toLowerCase category) categories
           in case match of
                None \<Rightarrow> (Inr ''Other'', calls')
              | Some c \<Rightarrow> (Inr (if c = [] then ''Other'' else c), calls')))"

subsection \<open>Notions of the specification\<close>

text \<open>
  The span from the first \<open>opn\<close> through the last \<open>cls\<close> after it, in the words of the
  specification; \<open>None\<close> when there is none.
\<close>

definition delimited_span :: "char \<Rightarrow> char \<Rightarrow> string \<Rightarrow> string option" where
  "delimited_span opn cls s =
     (case dropWhile (\<lambda>x. x \<noteq> opn) s of
        [] \<Rightarrow> None
      | x # xs \<Rightarrow>
          if cls \<in> set xs then Some (x # rev (dropWhile (\<lambda>y. y \<noteq> cls) (rev xs))) else None)"

text \<open>
  The refusal signature in the words of the specification: one of the fixed phrases
  occurs in the text, or \<^verbatim>\<open>violates\<close> is followed on the same line by \<^verbatim>\<open>policy\<close>.
\<close>

definition occurs_in :: "string \<Rightarrow> string \<Rightarrow> bool" where
  "occurs_in w s \<longleftrightarrow> (\<exists>pre post. s = pre @ w @ post)"

definition refusal_phrases :: "string list" where
  "refusal_phrases =
     [''i cannot'', ''i can't'', ''i'm unable'', ''i am unable'',
      ''i will not'', ''i won't'',
      ''inappropriate'', ''offensive'', ''harmful'',
      ''against my guidelines'',
      ''as an ai'', ''as a language model'',
      ''i'm not able to'', ''i am not able to'',
      ''cannot assist with'', ''can't help with'',
      ''explicit'', ''adult content'', ''nsfw'']"

definition violates_policy :: "string \<Rightarrow> bool" where
  "violates_policy s \<longleftrightarrow>
     (\<exists>pre mid post. s = pre @ ''violates'' @ mid @ ''policy'' @ post \<and>
        (\<forall>c\<in>set mid. \<not> line_terminator c))"

definition refusal_signature :: "string \<Rightarrow> bool" where
  "refusal_signature s \<longleftrightarrow> (\<exists>w\<in>set refusal_phrases. occurs_in w s) \<or> violates_policy s"

text \<open>
  The shapes of the structured results, in the words of the specification:
  \<^verbatim>\<open>{improved: string, changes: string[]}\<close> and
  \<^verbatim>\<open>{corrected: string, errors: {original, correction, type}[]}\<close>.
\<close>

fun is_string :: "json \<Rightarrow> bool" where
  "is_string (JString s) = True"
| "is_string (JWide us) = True"
| "is_string v = False"

text \<open>The property of an object under a name, if it has one.\<close>

definition property :: "json \<Rightarrow> string \<Rightarrow> json option" where
  "property v name =
     (case v of
        JObject ms \<Rightarrow> map_of ms name
      | JWideObject ms \<Rightarrow> map_of ms (map of_char name)
      | _ \<Rightarrow> None)"

definition improve_shape :: "json \<Rightarrow> bool" where
  "improve_shape v =
     (case (property v ''improved'', property v ''changes'') of
        (Some i, Some (JArray cs)) \<Rightarrow> is_string i \<and> list_all is_string cs
      | _ \<Rightarrow> False)"

definition error_shape :: "json \<Rightarrow> bool" where
  "error_shape v =
     (case (property v ''original'', property v ''correction'', property v ''type'') of
        (Some a, Some b, Some c) \<Rightarrow> is_string a \<and> is_string b \<and> is_string c
      | _ \<Rightarrow> False)"

definition grammar_shape :: "json \<Rightarrow> bool" where
  "grammar_shape v =
     (case (property v ''corrected'', property v ''errors'') of
        (Some c, Some (JArray es)) \<Rightarrow> is_string c \<and> list_all error_shape es
      | _ \<Rightarrow> False)"

subsection \<open>Stand-ins for the provider\<close>

text \<open>
  Two providers for the examples: one answers every request with the same completion, one
  throws the same error on every request.
\<close>

definition answering :: "string \<Rightarrow> provider" where
  "answering r calls req = Inr (Some r)"

definition failing :: "string \<Rightarrow> provider" where
  "failing m calls req = Inl \<lparr>message = Some m, code = None\<rparr>"

subsection \<open>Notions of the proofs\<close>

text \<open>
  What a sequence of atoms matches, as a relation between the sequence and a text: a
  literal matches one character up to \<^verbatim>\<open>Canonicalize\<close>, a star any run of characters of its
  class.
\<close>

fun denotes :: "bool \<Rightarrow> bool \<Rightarrow> atom list \<Rightarrow> string \<Rightarrow> bool" where
  "denotes ic da [] w \<longleftrightarrow> w = []"
| "denotes ic da (Lit c # as) w \<longleftrightarrow>
     (\<exists>x v. w = x # v \<and> canonicalize ic c = canonicalize ic x \<and> denotes ic da as v)"
| "denotes ic da (Star k # as) w \<longleftrightarrow>
     (\<exists>u v. w = u @ v \<and> (\<forall>x\<in>set u. class_matches da k x) \<and> denotes ic da as v)"

text \<open>A text begins with a match of the sequence.\<close>

definition accepts_prefix :: "bool \<Rightarrow> bool \<Rightarrow> atom list \<Rightarrow> string \<Rightarrow> bool" where
  "accepts_prefix ic da as s \<longleftrightarrow> (\<exists>w rest. s = w @ rest \<and> denotes ic da as w)"

text \<open>The two case mappings on the numbers of the code units.\<close>

definition lower_code :: "nat \<Rightarrow> nat" where
  "lower_code n = (if (65 \<le> n \<and> n \<le> 90) \<or> (192 \<le> n \<and> n \<le> 222 \<and> n \<noteq> 215) then n + 32 else n)"

definition canonical_code :: "nat \<Rightarrow> nat" where
  "canonical_code n =
     (if (97 \<le> n \<and> n \<le> 122) \<or> (224 \<le> n \<and> n \<le> 254 \<and> n \<noteq> 247) then n - 32 else n)"

text \<open>
  The stack of a text that began with a bracket: its bottom frame is the array that the
  bracket opened.
\<close>

definition bottom_array :: "frame list \<Rightarrow> bool" where
  "bottom_array st \<longleftrightarrow> st \<noteq> [] \<and> (\<exists>es. last st = InArray es)"

section \<open>The regular expressions of the extraction\<close>

lemma canonicalize_off [simp]: "canonicalize False c = c"
  by (simp add: canonicalize_def)

lemma star_then_close:
  assumes "\<And>x. class_matches da k x"
  shows "match_here False da [Star k, Lit cls] xs =
     (if cls \<in> set xs then Some (rev (dropWhile (\<lambda>y. y \<noteq> cls) (rev xs))) else None)"
proof (induction xs)
  case Nil
  then show ?case by simp
next
  case (Cons x xs)
  show ?case
  proof (cases "cls \<in> set xs")
    case True
    with Cons assms show ?thesis
      by simp
  next
    case False
    then have "dropWhile (\<lambda>y. y \<noteq> cls) (rev xs) = []"
      by auto
    with False Cons assms show ?thesis
      by (auto simp: dropWhile_append)
  qed
qed

lemma search_without_close:
  assumes "\<And>x. class_matches da k x"
  shows "cls \<notin> set s \<Longrightarrow> search False da [[Lit opn, Star k, Lit cls]] s = None"
  by (induction s) (auto simp: star_then_close [OF assms])

lemma search_span:
  assumes "\<And>x. class_matches da k x"
  shows "search False da [[Lit opn, Star k, Lit cls]] s = delimited_span opn cls s"
proof (induction s)
  case Nil
  then show ?case by (simp add: delimited_span_def)
next
  case (Cons x xs)
  show ?case
  proof (cases "x = opn")
    case True
    then show ?thesis
      using search_without_close [OF assms, of cls xs opn]
      by (simp add: delimited_span_def star_then_close [OF assms])
  next
    case False
    with Cons show ?thesis
      by (simp add: delimited_span_def)
  qed
qed

lemma array_span: "str_match r array_regex = delimited_span (CHR ''['') (CHR '']'') r"
  by (simp add: str_match_def array_regex_def search_span)

lemma object_span: "str_match r object_regex = delimited_span (CHR ''{'') (CHR ''}'') r"
  by (simp add: str_match_def object_regex_def search_span)

section \<open>The matcher and what it matches\<close>

lemma denotes_star:
  "\<forall>x\<in>set u. class_matches da k x \<Longrightarrow> denotes ic da as v \<Longrightarrow> denotes ic da (Star k # as) (u @ v)"
  by auto

lemma denotes_star_skip: "denotes ic da as v \<Longrightarrow> denotes ic da (Star k # as) v"
  using denotes_star [of "[]" da k ic as v] by simp

lemma denotes_star_more:
  "class_matches da k x \<Longrightarrow> denotes ic da (Star k # as) v \<Longrightarrow> denotes ic da (Star k # as) (x # v)"
proof -
  assume x: "class_matches da k x" and "denotes ic da (Star k # as) v"
  then obtain u t where "v = u @ t" "\<forall>y\<in>set u. class_matches da k y" "denotes ic da as t"
    by auto
  with x denotes_star [of "x # u" da k ic as t] show ?thesis by simp
qed

lemma match_here_sound:
  "match_here ic da as s = Some m \<Longrightarrow> denotes ic da as m \<and> (\<exists>rest. s = m @ rest)"
proof (induction ic da as s arbitrary: m rule: match_here.induct)
  case (1 ic da s)
  then show ?case by simp
next
  case (2 ic da c as)
  then show ?case by simp
next
  case (3 ic da c as x xs)
  then show ?case by (auto split: if_splits)
next
  case (4 ic da k as)
  then have "denotes ic da as m" "m = []" by auto
  then show ?case using denotes_star_skip by simp
next
  case (5 ic da k as x xs)
  show ?case
  proof (cases "class_matches da k x")
    case False
    with 5 have "denotes ic da as m \<and> (\<exists>rest. x # xs = m @ rest)" by simp
    then show ?thesis using denotes_star_skip by blast
  next
    case True
    show ?thesis
    proof (cases "match_here ic da (Star k # as) xs")
      case None
      with True 5 have "denotes ic da as m \<and> (\<exists>rest. x # xs = m @ rest)" by simp
      then show ?thesis using denotes_star_skip by blast
    next
      case (Some m')
      with True 5 have m: "m = x # m'" and
        *: "denotes ic da (Star k # as) m'" "\<exists>rest. xs = m' @ rest" by auto
      from True *(1) have "denotes ic da (Star k # as) (x # m')"
        by (rule denotes_star_more)
      with m *(2) show ?thesis by auto
    qed
  qed
qed

lemma star_keeps_match:
  "match_here ic da as s = Some m \<Longrightarrow> \<exists>m'. match_here ic da (Star k # as) s = Some m'"
  by (cases s) (auto split: option.splits)

lemma star_consumes:
  "\<forall>x\<in>set u. class_matches da k x \<Longrightarrow> match_here ic da as s = Some m \<Longrightarrow>
   \<exists>m'. match_here ic da (Star k # as) (u @ s) = Some m'"
proof (induction u)
  case Nil
  then show ?case using star_keeps_match by simp
next
  case (Cons x u)
  then show ?case by (auto split: option.splits)
qed

lemma match_here_complete:
  "denotes ic da as w \<Longrightarrow> \<exists>m. match_here ic da as (w @ rest) = Some m"
proof (induction as arbitrary: w)
  case Nil
  then show ?case by simp
next
  case (Cons a as)
  show ?case
  proof (cases a)
    case (Lit c)
    with Cons.prems obtain x v where "w = x # v" "canonicalize ic c = canonicalize ic x"
      "denotes ic da as v" by auto
    with Cons.IH [of v] Lit show ?thesis by auto
  next
    case (Star k)
    with Cons.prems obtain u v where w: "w = u @ v" and u: "\<forall>x\<in>set u. class_matches da k x"
      and "denotes ic da as v" by auto
    with Cons.IH [of v] obtain m where "match_here ic da as (v @ rest) = Some m" by auto
    from star_consumes [OF u this] w Star show ?thesis by simp
  qed
qed

lemma match_here_iff:
  "(\<exists>m. match_here ic da as s = Some m) \<longleftrightarrow> accepts_prefix ic da as s"
  unfolding accepts_prefix_def
  using match_here_sound match_here_complete by blast

lemma match_here_none: "match_here ic da as s = None \<longleftrightarrow> \<not> accepts_prefix ic da as s"
  using match_here_iff [of ic da as s] by auto

lemma match_alts_iff:
  "(\<exists>m. match_alts ic da alts s = Some m) \<longleftrightarrow> (\<exists>a\<in>set alts. accepts_prefix ic da a s)"
proof (induction alts)
  case Nil
  then show ?case by simp
next
  case (Cons a alts)
  show ?case
  proof (cases "match_here ic da a s")
    case None
    with match_here_none [of ic da a s] Cons show ?thesis by simp
  next
    case (Some m)
    with match_here_iff [of ic da a s] show ?thesis by auto
  qed
qed

lemma match_alts_none:
  "match_alts ic da alts s = None \<longleftrightarrow> \<not> (\<exists>a\<in>set alts. accepts_prefix ic da a s)"
  using match_alts_iff [of ic da alts s] by auto

lemma search_iff:
  "(\<exists>m. search ic da alts s = Some m) \<longleftrightarrow>
     (\<exists>a\<in>set alts. \<exists>pre t. s = pre @ t \<and> accepts_prefix ic da a t)"
proof (induction s)
  case Nil
  then show ?case by (simp add: match_alts_iff)
next
  case (Cons x xs)
  show ?case
  proof (cases "match_alts ic da alts (x # xs)")
    case (Some m)
    then have "\<exists>a\<in>set alts. accepts_prefix ic da a (x # xs)"
      using match_alts_iff [of ic da alts "x # xs"] by auto
    then have "\<exists>a\<in>set alts. \<exists>pre t. x # xs = pre @ t \<and> accepts_prefix ic da a t"
      by (metis append_Nil)
    with Some show ?thesis by simp
  next
    case None
    then have no: "\<forall>a\<in>set alts. \<not> accepts_prefix ic da a (x # xs)"
      using match_alts_none [of ic da alts "x # xs"] by simp
    have "(\<exists>a\<in>set alts. \<exists>pre t. x # xs = pre @ t \<and> accepts_prefix ic da a t) \<longleftrightarrow>
          (\<exists>a\<in>set alts. \<exists>pre t. xs = pre @ t \<and> accepts_prefix ic da a t)"
    proof
      assume "\<exists>a\<in>set alts. \<exists>pre t. x # xs = pre @ t \<and> accepts_prefix ic da a t"
      then obtain a pre t where a: "a \<in> set alts" "x # xs = pre @ t" "accepts_prefix ic da a t"
        by blast
      with no have "pre \<noteq> []" by auto
      then obtain pre' where "pre = x # pre'" using a(2) by (cases pre) auto
      with a show "\<exists>a\<in>set alts. \<exists>pre t. xs = pre @ t \<and> accepts_prefix ic da a t"
        by auto
    next
      assume "\<exists>a\<in>set alts. \<exists>pre t. xs = pre @ t \<and> accepts_prefix ic da a t"
      then obtain a pre t where a: "a \<in> set alts" "xs = pre @ t" "accepts_prefix ic da a t"
        by blast
      then have "x # xs = (x # pre) @ t" by simp
      with a show "\<exists>a\<in>set alts. \<exists>pre t. x # xs = pre @ t \<and> accepts_prefix ic da a t"
        by blast
    qed
    with None Cons show ?thesis by simp
  qed
qed

lemma regex_test_iff:
  "regex_test re s \<longleftrightarrow>
     (\<exists>a\<in>set (alternatives re). \<exists>pre w post.
         s = pre @ w @ post \<and> denotes (ignoreCase re) (dotAll re) a w)"
  using search_iff [of "ignoreCase re" "dotAll re" "alternatives re" s]
  by (simp add: regex_test_def str_match_def accepts_prefix_def) blast

section \<open>Case folding\<close>

lemma of_char_lower_unit: "of_char (lower_unit c) = lower_code (of_char c)"
  by (auto simp: lower_unit_def lower_code_def Let_def)

lemma of_char_canonicalize: "of_char (canonicalize True c) = canonical_code (of_char c)"
proof -
  have "(of_char c :: nat) < 256" by simp
  then show ?thesis
    by (auto simp: canonicalize_def canonical_code_def Let_def)
qed

lemma lower_code_idem: "lower_code (lower_code n) = lower_code n"
  unfolding lower_code_def by presburger

lemma fold_codes:
  "lower_code n = n \<Longrightarrow> lower_code m = m \<Longrightarrow> canonical_code n = canonical_code m \<Longrightarrow> n = m"
  unfolding lower_code_def canonical_code_def by presburger

lemma lower_unit_idem: "lower_unit (lower_unit c) = lower_unit c"
proof -
  have "(of_char (lower_unit (lower_unit c)) :: nat) = of_char (lower_unit c)"
    by (simp only: of_char_lower_unit lower_code_idem)
  then show ?thesis by (simp only: of_char_eq_iff)
qed

lemma lowered_canonical_eq:
  assumes "lower_unit c = c" and "lower_unit x = x"
    and "canonicalize True c = canonicalize True x"
  shows "c = x"
proof -
  from assms(1) have n: "lower_code (of_char c) = of_char c"
    using of_char_lower_unit [of c] by simp
  from assms(2) have m: "lower_code (of_char x) = of_char x"
    using of_char_lower_unit [of x] by simp
  from assms(3) have "canonical_code (of_char c) = canonical_code (of_char x)"
    using of_char_canonicalize [of c] of_char_canonicalize [of x] by simp
  from fold_codes [OF n m this] show ?thesis by (simp only: of_char_eq_iff)
qed

section \<open>The refusal patterns\<close>

lemma denotes_lits:
  "denotes ic da (lits p @ as) w \<longleftrightarrow>
     (\<exists>w1 w2. w = w1 @ w2 \<and> map (canonicalize ic) w1 = map (canonicalize ic) p \<and>
        denotes ic da as w2)"
proof (induction p arbitrary: w)
  case Nil
  then show ?case by (simp add: lits_def)
next
  case (Cons c p)
  show ?case
  proof
    assume "denotes ic da (lits (c # p) @ as) w"
    then obtain x v where w: "w = x # v" and c: "canonicalize ic c = canonicalize ic x"
      and "denotes ic da (lits p @ as) v"
      by (auto simp: lits_def)
    with Cons obtain w1 w2 where "v = w1 @ w2"
      "map (canonicalize ic) w1 = map (canonicalize ic) p" "denotes ic da as w2"
      by auto
    with w c have "w = (x # w1) @ w2 \<and>
       map (canonicalize ic) (x # w1) = map (canonicalize ic) (c # p) \<and> denotes ic da as w2"
      by simp
    then show "\<exists>w1 w2. w = w1 @ w2 \<and>
       map (canonicalize ic) w1 = map (canonicalize ic) (c # p) \<and> denotes ic da as w2"
      by blast
  next
    assume "\<exists>w1 w2. w = w1 @ w2 \<and>
       map (canonicalize ic) w1 = map (canonicalize ic) (c # p) \<and> denotes ic da as w2"
    then obtain w1 w2 where w: "w = w1 @ w2"
      and m: "map (canonicalize ic) w1 = map (canonicalize ic) (c # p)"
      and d: "denotes ic da as w2"
      by blast
    from m obtain x w1' where w1: "w1 = x # w1'" "canonicalize ic x = canonicalize ic c"
      "map (canonicalize ic) w1' = map (canonicalize ic) p"
      by (cases w1) auto
    with d Cons [of "w1' @ w2"] have "denotes ic da (lits p @ as) (w1' @ w2)" by blast
    with w w1 show "denotes ic da (lits (c # p) @ as) w"
      by (simp add: lits_def)
  qed
qed

lemma denotes_lits_only:
  "denotes ic da (lits p) w \<longleftrightarrow> map (canonicalize ic) w = map (canonicalize ic) p"
  using denotes_lits [of ic da p "[]" w] by simp

lemma lowered_append: "toLowerCase (a @ b) = a @ b \<longleftrightarrow> toLowerCase a = a \<and> toLowerCase b = b"
  by (simp add: toLowerCase_def)

lemma lowered_toLowerCase: "toLowerCase (toLowerCase r) = toLowerCase r"
  by (simp add: toLowerCase_def lower_unit_idem)

lemma lowered_fold_eq:
  "toLowerCase w = w \<Longrightarrow> toLowerCase p = p \<Longrightarrow>
   map (canonicalize True) w = map (canonicalize True) p \<Longrightarrow> w = p"
proof (induction w arbitrary: p)
  case Nil
  then show ?case by simp
next
  case (Cons x w)
  then obtain c p' where p: "p = c # p'" by (cases p) auto
  with Cons.prems have "lower_unit c = c" "lower_unit x = x"
    "canonicalize True c = canonicalize True x"
    by (auto simp: toLowerCase_def)
  then have "c = x" by (rule lowered_canonical_eq)
  moreover from Cons.prems p have "toLowerCase w = w" "toLowerCase p' = p'"
    "map (canonicalize True) w = map (canonicalize True) p'"
    by (auto simp: toLowerCase_def)
  then have "w = p'" by (rule Cons.IH)
  ultimately show ?case using p by simp
qed

lemma literal_occurs:
  assumes "toLowerCase s = s" and "toLowerCase p = p"
  shows "(\<exists>pre w post. s = pre @ w @ post \<and> denotes True da (lits p) w) \<longleftrightarrow> occurs_in p s"
proof
  assume "\<exists>pre w post. s = pre @ w @ post \<and> denotes True da (lits p) w"
  then obtain pre w post where s: "s = pre @ w @ post"
    and "map (canonicalize True) w = map (canonicalize True) p"
    by (auto simp: denotes_lits_only)
  moreover from assms(1) s have "toLowerCase w = w" by (simp add: lowered_append)
  ultimately have "w = p" using assms(2) lowered_fold_eq [of w p] by simp
  with s show "occurs_in p s" by (auto simp: occurs_in_def)
next
  assume "occurs_in p s"
  then obtain pre post where "s = pre @ p @ post" by (auto simp: occurs_in_def)
  moreover have "denotes True da (lits p) p" by (simp add: denotes_lits_only)
  ultimately show "\<exists>pre w post. s = pre @ w @ post \<and> denotes True da (lits p) w" by blast
qed

lemma violates_occurs:
  assumes "toLowerCase s = s"
  shows "(\<exists>pre w post. s = pre @ w @ post \<and>
            denotes True False (lits ''violates'' @ Star Dot # lits ''policy'') w) \<longleftrightarrow>
         violates_policy s"
proof
  assume "\<exists>pre w post. s = pre @ w @ post \<and>
            denotes True False (lits ''violates'' @ Star Dot # lits ''policy'') w"
  then obtain pre w post where s: "s = pre @ w @ post"
    and "denotes True False (lits ''violates'' @ Star Dot # lits ''policy'') w" by blast
  then obtain w1 w2 where w: "w = w1 @ w2"
    and w1: "map (canonicalize True) w1 = map (canonicalize True) ''violates''"
    and "denotes True False (Star Dot # lits ''policy'') w2"
    unfolding denotes_lits by blast
  then obtain u t where w2: "w2 = u @ t" and u: "\<forall>x\<in>set u. \<not> line_terminator x"
    and t: "map (canonicalize True) t = map (canonicalize True) ''policy''"
    by (auto simp: denotes_lits_only)
  from assms s w w2 have l: "toLowerCase w1 = w1" "toLowerCase t = t"
    by (simp_all add: lowered_append)
  have v: "toLowerCase ''violates'' = ''violates''" and p: "toLowerCase ''policy'' = ''policy''"
    by (simp_all add: toLowerCase_def lower_unit_def)
  have "w1 = ''violates''" using l(1) v w1 by (rule lowered_fold_eq)
  moreover have "t = ''policy''" using l(2) p t by (rule lowered_fold_eq)
  ultimately have "w1 = ''violates''" "t = ''policy''" by simp_all
  with s w w2 have "s = pre @ ''violates'' @ u @ ''policy'' @ post" by simp
  with u show "violates_policy s" unfolding violates_policy_def by blast
next
  assume "violates_policy s"
  then obtain pre mid post where s: "s = pre @ (''violates'' @ mid @ ''policy'') @ post"
    and mid: "\<forall>c\<in>set mid. \<not> line_terminator c"
    by (auto simp: violates_policy_def)
  have "denotes True False (lits ''policy'') ''policy''" by (simp only: denotes_lits_only)
  with mid have "denotes True False (Star Dot # lits ''policy'') (mid @ ''policy'')"
    by (intro denotes_star) simp_all
  then have "denotes True False (lits ''violates'' @ Star Dot # lits ''policy'')
               (''violates'' @ mid @ ''policy'')"
    unfolding denotes_lits by blast
  with s show "\<exists>pre w post. s = pre @ w @ post \<and>
            denotes True False (lits ''violates'' @ Star Dot # lits ''policy'') w" by blast
qed

lemma literal_regex:
  assumes "toLowerCase s = s" and "list_all (\<lambda>p. toLowerCase p = p) ps"
  shows "regex_test \<lparr>alternatives = map lits ps, ignoreCase = True, dotAll = da\<rparr> s \<longleftrightarrow>
         list_ex (\<lambda>p. occurs_in p s) ps"
proof -
  have *: "(\<exists>pre w post. s = pre @ w @ post \<and> denotes True da (lits p) w) \<longleftrightarrow> occurs_in p s"
    if "p \<in> set ps" for p
  proof (rule literal_occurs [OF assms(1)])
    from that assms(2) show "toLowerCase p = p" by (simp only: list_all_iff)
  qed
  have "regex_test \<lparr>alternatives = map lits ps, ignoreCase = True, dotAll = da\<rparr> s \<longleftrightarrow>
        (\<exists>a\<in>set (map lits ps). \<exists>pre w post. s = pre @ w @ post \<and> denotes True da a w)"
    unfolding regex_test_iff by (simp only: regex.simps)
  also have "\<dots> \<longleftrightarrow>
        (\<exists>p\<in>set ps. \<exists>pre w post. s = pre @ w @ post \<and> denotes True da (lits p) w)"
    by (simp only: set_map bex_simps)
  also have "\<dots> \<longleftrightarrow> (\<exists>p\<in>set ps. occurs_in p s)"
    using * by (intro bex_cong refl)
  finally show ?thesis by (simp only: list_ex_iff)
qed

lemma guidelines_regex:
  assumes "toLowerCase s = s"
  shows "regex_test
           \<lparr>alternatives = [lits ''against my guidelines'', lits ''violates'' @ Star Dot # lits ''policy''],
            ignoreCase = True, dotAll = False\<rparr> s \<longleftrightarrow>
         occurs_in ''against my guidelines'' s \<or> violates_policy s"
proof -
  have l: "toLowerCase ''against my guidelines'' = ''against my guidelines''"
    by (simp add: toLowerCase_def lower_unit_def)
  have "regex_test
           \<lparr>alternatives = [lits ''against my guidelines'', lits ''violates'' @ Star Dot # lits ''policy''],
            ignoreCase = True, dotAll = False\<rparr> s \<longleftrightarrow>
        (\<exists>pre w post. s = pre @ w @ post \<and> denotes True False (lits ''against my guidelines'') w) \<or>
        (\<exists>pre w post. s = pre @ w @ post \<and>
            denotes True False (lits ''violates'' @ Star Dot # lits ''policy'') w)"
    unfolding regex_test_iff by (simp only: regex.simps list.set bex_simps simp_thms)
  then show ?thesis
    by (simp only: literal_occurs [OF assms l] violates_occurs [OF assms])
qed

lemma refusal_patterns_signature:
  assumes "toLowerCase s = s"
  shows "list_ex (\<lambda>pattern. regex_test pattern s) REFUSAL_PATTERNS \<longleftrightarrow> refusal_signature s"
proof -
  have p1: "regex_test \<lparr>alternatives = [lits ''i cannot'', lits ''i can't'', lits ''i'm unable'', lits ''i am unable''],
      ignoreCase = True, dotAll = False\<rparr> s \<longleftrightarrow>
      occurs_in ''i cannot'' s \<or> occurs_in ''i can't'' s \<or> occurs_in ''i'm unable'' s \<or>
      occurs_in ''i am unable'' s"
  proof -
    have "list_all (\<lambda>p. toLowerCase p = p) [''i cannot'', ''i can't'', ''i'm unable'', ''i am unable'']"
      by (simp add: toLowerCase_def lower_unit_def)
    from literal_regex [OF assms this, of False] show ?thesis
      by (simp only: list.map list_ex_Cons_iff list_ex_Nil_iff simp_thms)
  qed
  have p2: "regex_test \<lparr>alternatives = [lits ''i will not'', lits ''i won't''],
      ignoreCase = True, dotAll = False\<rparr> s \<longleftrightarrow>
      occurs_in ''i will not'' s \<or> occurs_in ''i won't'' s"
  proof -
    have "list_all (\<lambda>p. toLowerCase p = p) [''i will not'', ''i won't'']"
      by (simp add: toLowerCase_def lower_unit_def)
    from literal_regex [OF assms this, of False] show ?thesis
      by (simp only: list.map list_ex_Cons_iff list_ex_Nil_iff simp_thms)
  qed
  have p3: "regex_test \<lparr>alternatives = [lits ''inappropriate'', lits ''offensive'', lits ''harmful''],
      ignoreCase = True, dotAll = False\<rparr> s \<longleftrightarrow>
      occurs_in ''inappropriate'' s \<or> occurs_in ''offensive'' s \<or> occurs_in ''harmful'' s"
  proof -
    have "list_all (\<lambda>p. toLowerCase p = p) [''inappropriate'', ''offensive'', ''harmful'']"
      by (simp add: toLowerCase_def lower_unit_def)
    from literal_regex [OF assms this, of False] show ?thesis
      by (simp only: list.map list_ex_Cons_iff list_ex_Nil_iff simp_thms)
  qed
  note p4 = guidelines_regex [OF assms]
  have p5: "regex_test \<lparr>alternatives = [lits ''as an ai'', lits ''as a language model''],
      ignoreCase = True, dotAll = False\<rparr> s \<longleftrightarrow>
      occurs_in ''as an ai'' s \<or> occurs_in ''as a language model'' s"
  proof -
    have "list_all (\<lambda>p. toLowerCase p = p) [''as an ai'', ''as a language model'']"
      by (simp add: toLowerCase_def lower_unit_def)
    from literal_regex [OF assms this, of False] show ?thesis
      by (simp only: list.map list_ex_Cons_iff list_ex_Nil_iff simp_thms)
  qed
  have p6: "regex_test \<lparr>alternatives = [lits ''i'm not able to'', lits ''i am not able to''],
      ignoreCase = True, dotAll = False\<rparr> s \<longleftrightarrow>
      occurs_in ''i'm not able to'' s \<or> occurs_in ''i am not able to'' s"
  proof -
    have "list_all (\<lambda>p. toLowerCase p = p) [''i'm not able to'', ''i am not able to'']"
      by (simp add: toLowerCase_def lower_unit_def)
    from literal_regex [OF assms this, of False] show ?thesis
      by (simp only: list.map list_ex_Cons_iff list_ex_Nil_iff simp_thms)
  qed
  have p7: "regex_test \<lparr>alternatives = [lits ''cannot assist with'', lits ''can't help with''],
      ignoreCase = True, dotAll = False\<rparr> s \<longleftrightarrow>
      occurs_in ''cannot assist with'' s \<or> occurs_in ''can't help with'' s"
  proof -
    have "list_all (\<lambda>p. toLowerCase p = p) [''cannot assist with'', ''can't help with'']"
      by (simp add: toLowerCase_def lower_unit_def)
    from literal_regex [OF assms this, of False] show ?thesis
      by (simp only: list.map list_ex_Cons_iff list_ex_Nil_iff simp_thms)
  qed
  have p8: "regex_test \<lparr>alternatives = [lits ''explicit'', lits ''adult content'', lits ''nsfw''],
      ignoreCase = True, dotAll = False\<rparr> s \<longleftrightarrow>
      occurs_in ''explicit'' s \<or> occurs_in ''adult content'' s \<or> occurs_in ''nsfw'' s"
  proof -
    have "list_all (\<lambda>p. toLowerCase p = p) [''explicit'', ''adult content'', ''nsfw'']"
      by (simp add: toLowerCase_def lower_unit_def)
    from literal_regex [OF assms this, of False] show ?thesis
      by (simp only: list.map list_ex_Cons_iff list_ex_Nil_iff simp_thms)
  qed
  have sig: "refusal_signature s \<longleftrightarrow>
      (occurs_in ''i cannot'' s \<or> occurs_in ''i can't'' s \<or> occurs_in ''i'm unable'' s \<or>
       occurs_in ''i am unable'' s) \<or>
      (occurs_in ''i will not'' s \<or> occurs_in ''i won't'' s) \<or>
      (occurs_in ''inappropriate'' s \<or> occurs_in ''offensive'' s \<or> occurs_in ''harmful'' s) \<or>
      (occurs_in ''against my guidelines'' s \<or> violates_policy s) \<or>
      (occurs_in ''as an ai'' s \<or> occurs_in ''as a language model'' s) \<or>
      (occurs_in ''i'm not able to'' s \<or> occurs_in ''i am not able to'' s) \<or>
      (occurs_in ''cannot assist with'' s \<or> occurs_in ''can't help with'' s) \<or>
      (occurs_in ''explicit'' s \<or> occurs_in ''adult content'' s \<or> occurs_in ''nsfw'' s)"
    unfolding refusal_signature_def refusal_phrases_def
    by (simp only: list.set bex_simps simp_thms) blast
  show ?thesis
    unfolding REFUSAL_PATTERNS_def sig
    by (simp only: list_ex_Nil_iff list_ex_Cons_iff p1 p2 p3 p4 p5 p6 p7 p8 simp_thms)
qed

lemma isContentRefusal_iff:
  "isContentRefusal r \<longleftrightarrow> 10 \<le> length r \<and> refusal_signature (toLowerCase (take 200 r))"
proof (cases "length r < 10")
  case True
  then show ?thesis by (simp add: isContentRefusal_def)
next
  case False
  then have "r \<noteq> []" by auto
  with False show ?thesis
    using refusal_patterns_signature [OF lowered_toLowerCase, of "take 200 r"]
    by (simp add: isContentRefusal_def substring_def)
qed

lemma startsWith_iff: "startsWith s w \<longleftrightarrow> (\<exists>post. s = w @ post)"
  by (induction s w rule: startsWith.induct) auto

lemma str_includes_occurs: "str_includes s w \<longleftrightarrow> occurs_in w s"
proof (induction s)
  case Nil
  then show ?case by (auto simp: occurs_in_def)
next
  case (Cons c cs)
  have "occurs_in w (c # cs) \<longleftrightarrow> (\<exists>post. c # cs = w @ post) \<or> occurs_in w cs"
  proof
    assume "occurs_in w (c # cs)"
    then obtain pre post where s: "c # cs = pre @ w @ post" by (auto simp: occurs_in_def)
    show "(\<exists>post. c # cs = w @ post) \<or> occurs_in w cs"
    proof (cases pre)
      case Nil
      with s show ?thesis by auto
    next
      case (Cons a pre')
      with s have "cs = pre' @ w @ post" by simp
      then show ?thesis by (auto simp: occurs_in_def)
    qed
  next
    assume "(\<exists>post. c # cs = w @ post) \<or> occurs_in w cs"
    then show "occurs_in w (c # cs)"
    proof
      assume "\<exists>post. c # cs = w @ post"
      then obtain post where "c # cs = [] @ w @ post" by auto
      then show ?thesis unfolding occurs_in_def by blast
    next
      assume "occurs_in w cs"
      then obtain pre post where "cs = pre @ w @ post" by (auto simp: occurs_in_def)
      then have "c # cs = (c # pre) @ w @ post" by simp
      then show ?thesis unfolding occurs_in_def by blast
    qed
  qed
  with Cons show ?case by (simp add: startsWith_iff)
qed

lemma occurs_in_append: "occurs_in w a \<Longrightarrow> occurs_in w (a @ b)"
proof -
  assume "occurs_in w a"
  then obtain pre post where "a = pre @ w @ post" by (auto simp: occurs_in_def)
  then have "a @ b = pre @ w @ (post @ b)" by simp
  then show ?thesis unfolding occurs_in_def by blast
qed

lemma violates_policy_append: "violates_policy a \<Longrightarrow> violates_policy (a @ b)"
proof -
  assume "violates_policy a"
  then obtain pre mid post where "a = pre @ ''violates'' @ mid @ ''policy'' @ post"
    and mid: "\<forall>c\<in>set mid. \<not> line_terminator c"
    by (auto simp: violates_policy_def)
  then have "a @ b = pre @ ''violates'' @ mid @ ''policy'' @ (post @ b)" by simp
  with mid show ?thesis unfolding violates_policy_def by blast
qed

lemma refusal_signature_append: "refusal_signature a \<Longrightarrow> refusal_signature (a @ b)"
  unfolding refusal_signature_def using occurs_in_append violates_policy_append by blast

lemma violates_policy_word: "violates_policy s \<Longrightarrow> occurs_in ''violates'' s"
  unfolding violates_policy_def occurs_in_def by blast

lemma refusal_after_prefix:
  assumes "isContentRefusal p"
  shows "isContentRefusal (p @ rest)"
proof -
  from assms have len: "10 \<le> length p" and sig: "refusal_signature (toLowerCase (take 200 p))"
    by (simp_all add: isContentRefusal_iff)
  have "toLowerCase (take 200 (p @ rest)) =
          toLowerCase (take 200 p) @ toLowerCase (take (200 - length p) rest)"
    by (simp add: toLowerCase_def)
  with sig have "refusal_signature (toLowerCase (take 200 (p @ rest)))"
    by (simp add: refusal_signature_append)
  with len show ?thesis by (simp add: isContentRefusal_iff)
qed

lemma refusal_first_200:
  assumes "length p = 200"
  shows "isContentRefusal (p @ rest) = isContentRefusal p"
  using assms by (simp add: isContentRefusal_iff)

lemma not_refusal_scan:
  assumes "\<not> list_ex (str_includes (toLowerCase (take 200 r))) (''violates'' # refusal_phrases)"
  shows "\<not> isContentRefusal r"
proof
  assume "isContentRefusal r"
  then have "refusal_signature (toLowerCase (take 200 r))" by (simp add: isContentRefusal_iff)
  then have "(\<exists>w\<in>set refusal_phrases. occurs_in w (toLowerCase (take 200 r))) \<or>
             occurs_in ''violates'' (toLowerCase (take 200 r))"
    unfolding refusal_signature_def using violates_policy_word by blast
  with assms show False
    by (simp add: list_ex_iff str_includes_occurs)
qed

lemma refusal_up_to_case:
  assumes "toLowerCase r = toLowerCase r'"
  shows "isContentRefusal r = isContentRefusal r'"
proof -
  from assms have "length (toLowerCase r) = length (toLowerCase r')" by simp
  then have "length r = length r'" by (simp add: toLowerCase_def)
  moreover have "toLowerCase (take 200 r) = take 200 (toLowerCase r)"
    and "toLowerCase (take 200 r') = take 200 (toLowerCase r')"
    by (simp_all add: toLowerCase_def take_map)
  ultimately show ?thesis using assms by (simp add: isContentRefusal_iff)
qed

section \<open>Completions that pass through\<close>

lemma short_not_refusal: "length r < 10 \<Longrightarrow> \<not> isContentRefusal r"
  by (simp add: isContentRefusal_def)

lemma makeCompletion_returns:
  "provider calls (completion_request sp up mdl) = Inr (Some r) \<Longrightarrow> \<not> isContentRefusal r \<Longrightarrow>
   makeCompletion provider sp up mdl calls = (Inr r, calls @ [completion_request sp up mdl])"
  by (simp add: makeCompletion_def chat_completions_create_def content_or_empty_def)

lemma makeCompletion_refuses:
  "provider calls (completion_request sp up mdl) = Inr (Some r) \<Longrightarrow> isContentRefusal r \<Longrightarrow>
   makeCompletion provider sp up mdl calls =
     (Inl (ContentModerationError safety_message), calls @ [completion_request sp up mdl])"
  by (simp add: makeCompletion_def chat_completions_create_def content_or_empty_def)

lemma answering_returns:
  "\<not> isContentRefusal r \<Longrightarrow>
   makeCompletion (answering r) sp up mdl calls = (Inr r, calls @ [completion_request sp up mdl])"
  by (rule makeCompletion_returns) (simp_all add: answering_def)

lemma answering_refuses:
  "isContentRefusal r \<Longrightarrow>
   makeCompletion (answering r) sp up mdl calls =
     (Inl (ContentModerationError safety_message), calls @ [completion_request sp up mdl])"
  by (rule makeCompletion_refuses) (simp_all add: answering_def)

section \<open>The requests of the operations\<close>

lemma first_request:
  "snd (makeCompletion provider sp up mdl calls) ! length calls = completion_request sp up mdl"
  by (auto simp: makeCompletion_def chat_completions_create_def Let_def nth_append
      split: sum.splits)

lemma first_user_message:
  "messages (snd (makeCompletion provider sp up mdl calls) ! length calls) =
     [(''system'', sp), (''user'', up)]"
  by (simp add: first_request completion_request_def)

lemma generateTags_calls:
  "snd (generateTags provider content maxTags calls) =
     snd (makeCompletion provider (generateTags_systemPrompt maxTags)
            (generateTags_userPrompt content) MODELS_FAST calls)"
  by (auto simp: generateTags_def Let_def split: prod.splits sum.splits option.splits json.splits)

lemma generateTitles_calls:
  "snd (generateTitles provider content n calls) =
     snd (makeCompletion provider (generateTitles_systemPrompt n)
            (generateTitles_userPrompt content n) MODELS_FAST calls)"
  by (auto simp: generateTitles_def Let_def split: prod.splits sum.splits option.splits json.splits)

lemma improveText_calls:
  "snd (improveText provider text calls) =
     snd (makeCompletion provider improveText_systemPrompt (improveText_userPrompt text)
            MODELS_BALANCED calls)"
  by (auto simp: improveText_def split: prod.splits sum.splits option.splits)

lemma grammarCheck_calls:
  "snd (grammarCheck provider text calls) =
     snd (makeCompletion provider grammarCheck_systemPrompt (grammarCheck_userPrompt text)
            MODELS_FAST calls)"
  by (auto simp: grammarCheck_def split: prod.splits sum.splits option.splits)

lemma getCategory_calls:
  "snd (getCategory provider content calls) =
     snd (makeCompletion provider getCategory_systemPrompt (getCategory_userPrompt content)
            MODELS_FAST calls)"
  by (auto simp: getCategory_def Let_def split: prod.splits sum.splits option.splits)

section \<open>Texts that begin with a bracket\<close>

lemma deliver_bottom:
  "bottom_array st \<Longrightarrow> deliver v st = Some (st', e') \<Longrightarrow> bottom_array st'"
  by (cases "(v, st)" rule: deliver.cases) (auto simp: bottom_array_def split: if_splits)

lemma close_array_bottom:
  "bottom_array st \<Longrightarrow> close_array st = Some (st', e') \<Longrightarrow>
   bottom_array st' \<or> (st' = [] \<and> (\<exists>xs. e' = Done (JArray xs)))"
proof (cases st rule: close_array.cases)
  case (1 es st0)
  assume b: "bottom_array st" and c: "close_array st = Some (st', e')"
  show ?thesis
  proof (cases "st0 = []")
    case True
    with 1 c show ?thesis by auto
  next
    case False
    with 1 b have "bottom_array st0" by (auto simp: bottom_array_def)
    with 1 c deliver_bottom show ?thesis by auto
  qed
qed auto

lemma close_object_bottom:
  "bottom_array st \<Longrightarrow> close_object st = Some (st', e') \<Longrightarrow> bottom_array st'"
proof (cases st rule: close_object.cases)
  case (1 ms st0)
  assume b: "bottom_array st" and c: "close_object st = Some (st', e')"
  from 1 b have "bottom_array st0" by (auto simp: bottom_array_def split: if_splits)
  with 1 c deliver_bottom show ?thesis by auto
qed auto

lemma start_value_bottom:
  assumes "bottom_array st" and "start_value st t = Some (st', e')"
  shows "bottom_array st'"
proof (cases t)
  case TLBracket
  with assms show ?thesis by (auto simp: bottom_array_def)
next
  case TLBrace
  with assms show ?thesis by (auto simp: bottom_array_def)
next
  case (TString x)
  with assms(2) have "deliver (json_string x) st = Some (st', e')" by simp
  with assms(1) show ?thesis by (rule deliver_bottom)
next
  case (TNumber x)
  with assms(2) have "deliver (JNumber x) st = Some (st', e')" by simp
  with assms(1) show ?thesis by (rule deliver_bottom)
next
  case TTrue
  with assms(2) have "deliver (JBool True) st = Some (st', e')" by simp
  with assms(1) show ?thesis by (rule deliver_bottom)
next
  case TFalse
  with assms(2) have "deliver (JBool False) st = Some (st', e')" by simp
  with assms(1) show ?thesis by (rule deliver_bottom)
next
  case TNull
  with assms(2) have "deliver JNull st = Some (st', e')" by simp
  with assms(1) show ?thesis by (rule deliver_bottom)
qed (use assms in simp_all)

lemma take_key_bottom:
  "bottom_array st \<Longrightarrow> take_key st t = Some (st', e') \<Longrightarrow> bottom_array st'"
  by (cases "(st, t)" rule: take_key.cases) (auto simp: bottom_array_def split: if_splits)

lemma step_comma_or_close:
  assumes "bottom_array st" and "step (st, CommaOrClose) t = Some (st', e')"
  shows "bottom_array st' \<or> (st' = [] \<and> (\<exists>xs. e' = Done (JArray xs)))"
proof (cases st)
  case Nil
  with assms(2) show ?thesis by simp
next
  case (Cons f st0)
  show ?thesis
  proof (cases f)
    case (InArray es)
    show ?thesis
    proof (cases "t = TComma")
      case True
      with Cons InArray assms show ?thesis by simp
    next
      case False
      with Cons InArray assms(2) have "close_array st = Some (st', e')"
        by (simp split: if_splits)
      with assms(1) show ?thesis by (rule close_array_bottom)
    qed
  next
    case (InObject ms k)
    show ?thesis
    proof (cases "t = TComma")
      case True
      with Cons InObject assms show ?thesis by simp
    next
      case False
      with Cons InObject assms(2) have "close_object st = Some (st', e')"
        by (simp split: if_splits)
      with assms(1) have "bottom_array st'" by (rule close_object_bottom)
      then show ?thesis ..
    qed
  qed
qed

lemma step_bottom:
  assumes "bottom_array st" and "step (st, e) t = Some (st', e')"
  shows "bottom_array st' \<or> (st' = [] \<and> (\<exists>xs. e' = Done (JArray xs)))"
proof (cases e)
  case Value
  with assms(2) have "start_value st t = Some (st', e')" by simp
  with assms(1) have "bottom_array st'" by (rule start_value_bottom)
  then show ?thesis ..
next
  case ValueOrClose
  show ?thesis
  proof (cases "t = TRBracket")
    case True
    with ValueOrClose assms(2) have "close_array st = Some (st', e')" by simp
    with assms(1) show ?thesis by (rule close_array_bottom)
  next
    case False
    with ValueOrClose assms(2) have "start_value st t = Some (st', e')" by simp
    with assms(1) have "bottom_array st'" by (rule start_value_bottom)
    then show ?thesis ..
  qed
next
  case Key
  with assms(2) have "take_key st t = Some (st', e')" by simp
  with assms(1) have "bottom_array st'" by (rule take_key_bottom)
  then show ?thesis ..
next
  case KeyOrClose
  show ?thesis
  proof (cases "t = TRBrace")
    case True
    with KeyOrClose assms(2) have "close_object st = Some (st', e')" by simp
    with assms(1) have "bottom_array st'" by (rule close_object_bottom)
    then show ?thesis ..
  next
    case False
    with KeyOrClose assms(2) have "take_key st t = Some (st', e')" by simp
    with assms(1) have "bottom_array st'" by (rule take_key_bottom)
    then show ?thesis ..
  qed
next
  case Colon
  with assms show ?thesis by (simp split: if_splits)
next
  case CommaOrClose
  with assms show ?thesis using step_comma_or_close by simp
next
  case (Done v)
  with assms(2) show ?thesis by simp
qed

lemma run_done: "run ([], Done v) ts = Some ([], Done v') \<Longrightarrow> v' = v"
  by (cases ts) auto

lemma run_bottom:
  "bottom_array st \<Longrightarrow> run (st, e) ts = Some ([], Done v) \<Longrightarrow> \<exists>xs. v = JArray xs"
proof (induction ts arbitrary: st e)
  case Nil
  then show ?case by (simp add: bottom_array_def)
next
  case (Cons t ts)
  from Cons.prems(2) obtain st' e' where s: "step (st, e) t = Some (st', e')"
    and r: "run (st', e') ts = Some ([], Done v)"
    by (auto split: option.splits)
  from step_bottom [OF Cons.prems(1) s] show ?case
  proof
    assume "bottom_array st'"
    from Cons.IH [OF this r] show ?thesis .
  next
    assume "st' = [] \<and> (\<exists>xs. e' = Done (JArray xs))"
    with r run_done show ?thesis by blast
  qed
qed

lemma lex_bracket:
  "lex (CHR ''['' # t) = Inr ts \<Longrightarrow> \<exists>ts'. ts = TLBracket # ts'"
  by (auto simp: json_space_def punctuation_def cons_token_def split: sum.splits)

lemma parse_outcome:
  "JSON_parse s = Inl SyntaxError \<or> (\<exists>v. JSON_parse s = Inr v)"
  by (cases "JSON_parse s") (auto intro: parse_failure.exhaust)

lemma parsed_bracket_text_is_array:
  assumes "JSON_parse (CHR ''['' # t) = Inr v"
  shows "\<exists>xs. v = JArray xs"
proof -
  from assms obtain ts where l: "lex (CHR ''['' # t) = Inr ts"
    and r: "run ([], Value) ts = Some ([], Done v)"
    by (auto simp: JSON_parse_def split: sum.splits option.splits list.splits expect.splits)
  from lex_bracket [OF l] obtain ts' where "ts = TLBracket # ts'" by blast
  with r have "run ([InArray []], ValueOrClose) ts' = Some ([], Done v)" by simp
  moreover have "bottom_array [InArray []]" by (simp add: bottom_array_def)
  ultimately show ?thesis using run_bottom by blast
qed

lemma delimited_span_head:
  "delimited_span opn cls s = Some m \<Longrightarrow> \<exists>t. m = opn # t"
proof -
  assume a: "delimited_span opn cls s = Some m"
  then obtain x xs where d: "dropWhile (\<lambda>x. x \<noteq> opn) s = x # xs"
    by (auto simp: delimited_span_def split: list.splits)
  then have "x = opn" using hd_dropWhile [of "\<lambda>x. x \<noteq> opn" s] by auto
  with a d show ?thesis by (auto simp: delimited_span_def split: if_splits)
qed

lemma array_span_parses:
  assumes "delimited_span (CHR ''['') (CHR '']'') r = Some m"
  shows "JSON_parse m = Inl SyntaxError \<or> (\<exists>xs. JSON_parse m = Inr (JArray xs))"
proof -
  from delimited_span_head [OF assms] obtain t where m: "m = CHR ''['' # t" ..
  from parse_outcome [of m] show ?thesis
  proof
    assume "JSON_parse m = Inl SyntaxError"
    then show ?thesis ..
  next
    assume "\<exists>v. JSON_parse m = Inr v"
    then obtain v where v: "JSON_parse m = Inr v" ..
    with m parsed_bracket_text_is_array [of t v] show ?thesis by simp
  qed
qed

section \<open>Tags and categories\<close>

lemma lower_trim_strings:
  "lower_trim_all (map JString ts) = Some (map (\<lambda>t. Tag (trim (toLowerCase t))) ts)"
  by (induction ts) simp_all

lemma lower_trim_each:
  "list_all is_string xs \<Longrightarrow>
   \<exists>tags. lower_trim_all xs = Some tags \<and>
      list_all2 (\<lambda>x t. (\<forall>s. x = JString s \<longrightarrow> t = Tag (trim (toLowerCase s))) \<and>
                        (\<forall>us. x = JWide us \<longrightarrow> t = WideTag us)) xs tags"
proof (induction xs)
  case Nil
  then show ?case by simp
next
  case (Cons x xs)
  then obtain tags where t: "lower_trim_all xs = Some tags"
    "list_all2 (\<lambda>x t. (\<forall>s. x = JString s \<longrightarrow> t = Tag (trim (toLowerCase s))) \<and>
                        (\<forall>us. x = JWide us \<longrightarrow> t = WideTag us)) xs tags"
    by auto
  from Cons.prems have "is_string x" by simp
  then show ?case using t by (cases x) simp_all
qed

lemma lower_trim_not_strings:
  "\<not> list_all is_string xs \<Longrightarrow> lower_trim_all xs = None"
proof (induction xs)
  case Nil
  then show ?case by simp
next
  case (Cons x xs)
  then show ?case by (cases x) (auto split: option.splits)
qed

lemma trim_between:
  "\<exists>a b. t = a @ trim t @ b \<and> list_all white_space a \<and> list_all white_space b"
proof -
  let ?u = "dropWhile white_space t"
  have 1: "t = takeWhile white_space t @ ?u" by simp
  have 2: "rev ?u = takeWhile white_space (rev ?u) @ dropWhile white_space (rev ?u)" by simp
  have "?u = rev (rev ?u)" by simp
  also have "\<dots> = rev (dropWhile white_space (rev ?u)) @ rev (takeWhile white_space (rev ?u))"
    by (subst 2) (simp only: rev_append)
  finally have 3: "?u = trim t @ rev (takeWhile white_space (rev ?u))"
    by (simp add: trim_def)
  have a: "list_all white_space (takeWhile white_space t)"
    by (simp add: list_all_iff) (metis set_takeWhileD)
  have b: "list_all white_space (rev (takeWhile white_space (rev ?u)))"
    by (simp add: list_all_iff) (metis set_takeWhileD)
  from 1 3 have "t = takeWhile white_space t @ trim t @ rev (takeWhile white_space (rev ?u))"
    by simp
  with a b show ?thesis by blast
qed

lemma trim_ends:
  assumes "trim t \<noteq> []"
  shows "\<not> white_space (hd (trim t))" and "\<not> white_space (last (trim t))"
proof -
  let ?u = "dropWhile white_space t"
  let ?w = "dropWhile white_space (rev ?u)"
  from assms have w: "?w \<noteq> []" by (simp add: trim_def)
  then have "\<not> white_space (hd ?w)" by (rule hd_dropWhile)
  with w show "\<not> white_space (last (trim t))" by (simp add: trim_def last_rev)
  have u: "?u \<noteq> []"
  proof
    assume "?u = []"
    then have "?w = []" by (simp only: rev.simps(1) dropWhile.simps(1))
    with w show False ..
  qed
  then have h: "\<not> white_space (hd ?u)" by (rule hd_dropWhile)
  have "rev ?u = takeWhile white_space (rev ?u) @ ?w" by simp
  then have "?u = rev ?w @ rev (takeWhile white_space (rev ?u))"
    by (metis rev_append rev_rev_ident)
  with w have "hd ?u = hd (rev ?w)" by (metis hd_append2 rev_is_Nil_conv)
  with h show "\<not> white_space (hd (trim t))" by (simp add: trim_def)
qed

lemma generateTags_span:
  assumes "makeCompletion provider (generateTags_systemPrompt maxTags)
             (generateTags_userPrompt content) MODELS_FAST calls = (Inr r, calls')"
  shows "generateTags provider content maxTags calls =
           (case delimited_span (CHR ''['') (CHR '']'') r of
              None \<Rightarrow> (Inr [], calls')
            | Some m \<Rightarrow>
                (case JSON_parse m of
                   Inr (JArray xs) \<Rightarrow>
                     (case lower_trim_all (slice0 xs maxTags) of
                        Some tags \<Rightarrow> (Inr tags, calls')
                      | None \<Rightarrow> (Inr [], calls'))
                 | _ \<Rightarrow> (Inr [], calls')))"
  using assms by (simp add: generateTags_def Let_def array_span)

lemma generateTags_answer:
  assumes "\<not> isContentRefusal r"
    and "delimited_span (CHR ''['') (CHR '']'') r = Some m"
    and "JSON_parse m = Inr (JArray xs)"
    and "lower_trim_all (slice0 xs maxTags) = Some tags"
  shows "fst (generateTags (answering r) content maxTags calls) = Inr tags"
  using generateTags_span [OF answering_returns [OF assms(1)]] assms(2-4) by simp

lemma categories_distinct: "distinct (map toLowerCase categories)"
  by code_simp

lemma find_unique:
  "distinct (map f xs) \<Longrightarrow> c \<in> set xs \<Longrightarrow> f c = y \<Longrightarrow> find (\<lambda>d. f d = y) xs = Some c"
  by (induction xs) auto

lemma find_category:
  assumes "c \<in> set categories" and "toLowerCase c = toLowerCase x"
  shows "find (\<lambda>c. toLowerCase c = toLowerCase x) categories = Some c"
  using categories_distinct assms by (rule find_unique)

lemma find_no_category:
  assumes "\<forall>c\<in>set categories. toLowerCase c \<noteq> toLowerCase x"
  shows "find (\<lambda>c. toLowerCase c = toLowerCase x) categories = None"
  using assms by (simp add: find_None_iff)

lemma categories_nonempty: "[] \<notin> set categories"
  by (simp add: categories_def)

section \<open>Properties of the completion invoker\<close>

text \<open>
  Claim C2. Every run of \<^verbatim>\<open>makeCompletion\<close> issues the primary call and at most one
  fallback call, so at most two calls; and when the primary call returns a completion
  that the classifier takes for a refusal, the run issues that one call only and throws
  a \<^verbatim>\<open>ContentModerationError\<close>.
\<close>

theorem makeCompletion_call_bound:
  "(snd (makeCompletion provider sp up mdl calls) = calls @ [completion_request sp up mdl] \<or>
    snd (makeCompletion provider sp up mdl calls) =
      calls @ [completion_request sp up mdl, completion_request sp up FALLBACK_MODEL]) \<and>
   length (snd (makeCompletion provider sp up mdl calls)) \<le> length calls + 2 \<and>
   (\<forall>c. provider calls (completion_request sp up mdl) = Inr c \<and>
        isContentRefusal (content_or_empty c) \<longrightarrow>
        makeCompletion provider sp up mdl calls =
          (Inl (ContentModerationError safety_message), calls @ [completion_request sp up mdl]))"
  by (auto simp: makeCompletion_def chat_completions_create_def Let_def split: sum.splits)

theorem makeCompletion_call_bound_witness:
  "isContentRefusal (content_or_empty (Some ''I cannot help with that request.'')) \<and>
   makeCompletion (\<lambda>calls req. Inr (Some ''I cannot help with that request.''))
       ''system text'' ''user text'' MODELS_BALANCED [] =
     (Inl (ContentModerationError safety_message),
      [completion_request ''system text'' ''user text'' MODELS_BALANCED])"
proof -
  have h: "isContentRefusal (content_or_empty (Some ''I cannot help with that request.''))"
    by code_simp
  with makeCompletion_call_bound
    [of "\<lambda>calls req. Inr (Some ''I cannot help with that request.'')"
        "''system text''" "''user text''" MODELS_BALANCED "[]"]
  show ?thesis by simp
qed

text \<open>
  Claim C3. When the primary call throws an error that is not a moderation error: if the
  model is not the fallback model, exactly one more call is issued, to
  \<^verbatim>\<open>llama-3.1-8b-instant\<close>, with the same two prompts, temperature \<open>0.7\<close> and
  \<^verbatim>\<open>max_tokens\<close> \<open>1024\<close>, and when that call throws too the run throws the error
  \<^verbatim>\<open>AI service temporarily unavailable\<close>; if the model is the fallback model, no second
  call is issued and the same error is thrown.
\<close>

theorem makeCompletion_fallback:
  assumes "provider calls (completion_request sp up mdl) = Inl e"
    and "\<not> api_content_filter e"
  shows "(mdl \<noteq> FALLBACK_MODEL \<longrightarrow>
            snd (makeCompletion provider sp up mdl calls) =
              calls @ [completion_request sp up mdl, completion_request sp up FALLBACK_MODEL] \<and>
            completion_request sp up FALLBACK_MODEL =
              \<lparr>messages = [(''system'', sp), (''user'', up)], model = ''llama-3.1-8b-instant'',
               temperature = 0.7, max_tokens = 1024\<rparr> \<and>
            messages (completion_request sp up FALLBACK_MODEL) =
              messages (completion_request sp up mdl) \<and>
            temperature (completion_request sp up FALLBACK_MODEL) =
              temperature (completion_request sp up mdl) \<and>
            max_tokens (completion_request sp up FALLBACK_MODEL) =
              max_tokens (completion_request sp up mdl) \<and>
            (\<forall>e'. provider (calls @ [completion_request sp up mdl])
                     (completion_request sp up FALLBACK_MODEL) = Inl e' \<longrightarrow>
                 fst (makeCompletion provider sp up mdl calls) =
                   Inl (Error ''AI service temporarily unavailable''))) \<and>
         (mdl = FALLBACK_MODEL \<longrightarrow>
            makeCompletion provider sp up mdl calls =
              (Inl (Error ''AI service temporarily unavailable''),
               calls @ [completion_request sp up mdl]))"
  using assms
  by (auto simp: makeCompletion_def chat_completions_create_def Let_def completion_request_def
      FALLBACK_MODEL_def unavailable_message_def split: sum.splits)

theorem makeCompletion_fallback_witness:
  "snd (makeCompletion (\<lambda>calls req. Inl \<lparr>message = Some ''fetch failed'', code = None\<rparr>)
          ''system text'' ''user text'' MODELS_BALANCED []) =
     [completion_request ''system text'' ''user text'' MODELS_BALANCED,
      completion_request ''system text'' ''user text'' FALLBACK_MODEL] \<and>
   fst (makeCompletion (\<lambda>calls req. Inl \<lparr>message = Some ''fetch failed'', code = None\<rparr>)
          ''system text'' ''user text'' MODELS_BALANCED []) =
     Inl (Error ''AI service temporarily unavailable'') \<and>
   makeCompletion (\<lambda>calls req. Inl \<lparr>message = Some ''fetch failed'', code = None\<rparr>)
       ''system text'' ''user text'' FALLBACK_MODEL [] =
     (Inl (Error ''AI service temporarily unavailable''),
      [completion_request ''system text'' ''user text'' FALLBACK_MODEL])"
proof -
  let ?p = "\<lambda>(calls :: request list) (req :: request).
              (Inl \<lparr>message = Some ''fetch failed'', code = None\<rparr> :: api_error + string option)"
  have e: "\<not> api_content_filter \<lparr>message = Some ''fetch failed'', code = None\<rparr>"
    by (simp add: api_content_filter_def)
  have m: "MODELS_BALANCED \<noteq> FALLBACK_MODEL"
    by (simp add: MODELS_BALANCED_def FALLBACK_MODEL_def)
  from makeCompletion_fallback [of ?p "[]" "''system text''" "''user text''" MODELS_BALANCED, OF refl e]
       makeCompletion_fallback [of ?p "[]" "''system text''" "''user text''" FALLBACK_MODEL, OF refl e]
       m
  show ?thesis by simp
qed

text \<open>
  Claim C10. When the provider returns without throwing and the completion text is
  missing or empty, \<^verbatim>\<open>makeCompletion\<close> returns the empty string, and so does the summary
  operation; a completion of fewer than 10 characters is never taken for a refusal, not
  even \<^verbatim>\<open>nsfw\<close>.
\<close>

theorem empty_completion_succeeds:
  "((provider calls (completion_request sp up mdl) = Inr None \<or>
     provider calls (completion_request sp up mdl) = Inr (Some [])) \<longrightarrow>
      makeCompletion provider sp up mdl calls = (Inr [], calls @ [completion_request sp up mdl])) \<and>
   ((provider calls (completion_request (generateSummary_systemPrompt len)
        (generateSummary_userPrompt content) MODELS_FAST) = Inr None \<or>
     provider calls (completion_request (generateSummary_systemPrompt len)
        (generateSummary_userPrompt content) MODELS_FAST) = Inr (Some [])) \<longrightarrow>
      fst (generateSummary provider content len calls) = Inr []) \<and>
   (length r < 10 \<longrightarrow> \<not> isContentRefusal r) \<and>
   \<not> isContentRefusal ''nsfw''"
  by (auto simp: makeCompletion_def chat_completions_create_def generateSummary_def
      content_or_empty_def short_not_refusal)

theorem empty_completion_succeeds_witness:
  "makeCompletion (\<lambda>calls req. Inr None) ''system text'' ''user text'' MODELS_FAST [] =
     (Inr [], [completion_request ''system text'' ''user text'' MODELS_FAST]) \<and>
   fst (generateSummary (\<lambda>calls req. Inr (Some [])) ''a blog post'' ''short'' []) = Inr [] \<and>
   \<not> isContentRefusal ''explicit''"
proof -
  have l: "length ''explicit'' < 10" by simp
  from empty_completion_succeeds
         [of "\<lambda>calls req. Inr None" "[]" "''system text''" "''user text''" MODELS_FAST
             "''short''" "''a blog post''" "''explicit''"]
       empty_completion_succeeds
         [of "\<lambda>calls req. Inr (Some [])" "[]" "''system text''" "''user text''" MODELS_FAST
             "''short''" "''a blog post''" "''explicit''"] l
  show ?thesis by simp
qed

section \<open>Properties of the refusal classifier\<close>

text \<open>
  Claim C4. \<^verbatim>\<open>isContentRefusal\<close> answers true exactly when the text has at least 10
  characters and its first 200 characters, lower-cased, carry the refusal signature (one
  of the fixed phrases, or \<^verbatim>\<open>violates\<close> followed on the same line by \<^verbatim>\<open>policy\<close>); two
  texts that differ in case only get the same answer. What
  stands after the first 200 characters never changes the answer, so a phrase that begins
  only there gives no refusal; and a text that is a refusal stays one whatever is
  appended to it.
\<close>

theorem refusal_classifier:
  "(isContentRefusal r \<longleftrightarrow> 10 \<le> length r \<and> refusal_signature (toLowerCase (take 200 r))) \<and>
   (toLowerCase r = toLowerCase r' \<longrightarrow> isContentRefusal r = isContentRefusal r') \<and>
   (length p = 200 \<longrightarrow> isContentRefusal (p @ rest) = isContentRefusal p) \<and>
   (length p = 200 \<and> \<not> refusal_signature (toLowerCase p) \<longrightarrow> \<not> isContentRefusal (p @ rest)) \<and>
   (isContentRefusal p \<longrightarrow> isContentRefusal (p @ rest))"
  using isContentRefusal_iff [of r] isContentRefusal_iff [of "p @ rest"]
    refusal_first_200 [of p rest] refusal_after_prefix [of p rest] refusal_up_to_case [of r r']
  by simp

theorem refusal_classifier_witness:
  "isContentRefusal ''I cannot help with that request because...'' \<and>
   refusal_signature (toLowerCase (take 200 ''I cannot help with that request because...'')) \<and>
   isContentRefusal ''i CANNOT help with that request because...'' \<and>
   isContentRefusal (''I cannot help with that request because...'' @ '' of what follows.'') \<and>
   length (replicate 200 (CHR ''a'')) = 200 \<and>
   \<not> isContentRefusal (replicate 200 (CHR ''a'') @ '' harmful'')"
proof -
  have a: "isContentRefusal ''I cannot help with that request because...''"
    by code_simp
  have b: "\<not> isContentRefusal (replicate 200 (CHR ''a''))"
    by (rule not_refusal_scan) code_simp
  have c: "length (replicate 200 (CHR ''a'')) = 200"
    by simp
  have d: "toLowerCase ''I cannot help with that request because...'' =
           toLowerCase ''i CANNOT help with that request because...''"
    by code_simp
  from refusal_classifier
         [of "''I cannot help with that request because...''"
             "''i CANNOT help with that request because...''"
             "''I cannot help with that request because...''" "'' of what follows.''"]
       refusal_classifier
         [of "''I cannot help with that request because...''"
             "''i CANNOT help with that request because...''"
             "replicate 200 (CHR ''a'')" "'' harmful''"]
       a b c d
  show ?thesis by blast
qed

section \<open>Properties of the prompts\<close>

text \<open>
  Claim C9, as the code has it. The user prompt of the tag, summary, title and category
  operations is a fixed heading followed by the content cut to 3000, 4000, 2000 and 2000
  characters, so a content within the cap stands in the prompt whole and unchanged. The
  user prompt of the expansion, improvement, tone, continuation and grammar operations
  is the text itself, whole, whatever its length: these five have no cap. The prompts
  are total functions of their arguments, and they are the messages of the first request
  each operation issues.
\<close>

theorem prompt_truncation:
  "generateTags_userPrompt content =
     ''Extract tags from this blog content:'' @ nl @ nl @ take 3000 content \<and>
   generateSummary_userPrompt content =
     ''Summarize this blog content:'' @ nl @ nl @ take 4000 content \<and>
   generateTitles_userPrompt content n =
     ''Generate '' @ Number_toString n @ '' title options for this blog:'' @ nl @ nl @
     take 2000 content \<and>
   getCategory_userPrompt content =
     ''Classify this content:'' @ nl @ nl @ take 2000 content \<and>
   (length content \<le> 3000 \<longrightarrow>
      generateTags_userPrompt content =
        ''Extract tags from this blog content:'' @ nl @ nl @ content) \<and>
   (length content \<le> 4000 \<longrightarrow>
      generateSummary_userPrompt content = ''Summarize this blog content:'' @ nl @ nl @ content) \<and>
   (length content \<le> 2000 \<longrightarrow>
      generateTitles_userPrompt content n =
        ''Generate '' @ Number_toString n @ '' title options for this blog:'' @ nl @ nl @ content \<and>
      getCategory_userPrompt content = ''Classify this content:'' @ nl @ nl @ content) \<and>
   expandText_userPrompt text = text \<and>
   improveText_userPrompt text = text \<and>
   changeTone_userPrompt text = text \<and>
   continueWriting_userPrompt text = text \<and>
   grammarCheck_userPrompt text = text \<and>
   messages (snd (generateTags provider content maxTags calls) ! length calls) =
     [(''system'', generateTags_systemPrompt maxTags), (''user'', generateTags_userPrompt content)] \<and>
   messages (snd (generateSummary provider content len calls) ! length calls) =
     [(''system'', generateSummary_systemPrompt len), (''user'', generateSummary_userPrompt content)] \<and>
   messages (snd (generateTitles provider content n calls) ! length calls) =
     [(''system'', generateTitles_systemPrompt n), (''user'', generateTitles_userPrompt content n)] \<and>
   messages (snd (getCategory provider content calls) ! length calls) =
     [(''system'', getCategory_systemPrompt), (''user'', getCategory_userPrompt content)] \<and>
   messages (snd (expandText provider text tone calls) ! length calls) =
     [(''system'', expandText_systemPrompt tone), (''user'', text)] \<and>
   messages (snd (improveText provider text calls) ! length calls) =
     [(''system'', improveText_systemPrompt), (''user'', text)] \<and>
   messages (snd (changeTone provider text tone calls) ! length calls) =
     [(''system'', changeTone_systemPrompt tone), (''user'', text)] \<and>
   messages (snd (continueWriting provider text k calls) ! length calls) =
     [(''system'', continueWriting_systemPrompt k), (''user'', text)] \<and>
   messages (snd (grammarCheck provider text calls) ! length calls) =
     [(''system'', grammarCheck_systemPrompt), (''user'', text)]"
  by (simp add: generateTags_userPrompt_def generateSummary_userPrompt_def
        generateTitles_userPrompt_def getCategory_userPrompt_def substring_def
        expandText_userPrompt_def improveText_userPrompt_def changeTone_userPrompt_def
        continueWriting_userPrompt_def grammarCheck_userPrompt_def
        generateTags_calls generateTitles_calls improveText_calls grammarCheck_calls
        getCategory_calls generateSummary_def expandText_def changeTone_def continueWriting_def
        first_user_message)

theorem prompt_truncation_witness:
  "generateTags_userPrompt ''a short post'' =
     ''Extract tags from this blog content:'' @ nl @ nl @ ''a short post'' \<and>
   getCategory_userPrompt ''a short post'' = ''Classify this content:'' @ nl @ nl @ ''a short post'' \<and>
   generateTitles_userPrompt ''a short post'' 3 =
     ''Generate '' @ Number_toString 3 @ '' title options for this blog:'' @ nl @ nl @ ''a short post'' \<and>
   generateSummary_userPrompt ''a short post'' =
     ''Summarize this blog content:'' @ nl @ nl @ ''a short post''"
proof -
  have l: "length ''a short post'' \<le> 2000" by simp
  from prompt_truncation [of "''a short post''" 3] l show ?thesis by simp
qed

text \<open>
  The claim as stated gives every operation a cap between 2000 and 4000 characters. A
  text of 4001 characters reaches the provider whole in the user message of the
  expansion operation.
\<close>

theorem expand_prompt_not_truncated:
  "length (replicate 4001 (CHR ''a'')) = 4001 \<and>
   length (expandText_userPrompt (replicate 4001 (CHR ''a''))) = 4001 \<and>
   snd (expandText (answering ''ok'') (replicate 4001 (CHR ''a'')) ''professional'' []) =
     [completion_request (expandText_systemPrompt ''professional'') (replicate 4001 (CHR ''a''))
        MODELS_BALANCED] \<and>
   messages (completion_request (expandText_systemPrompt ''professional'')
       (replicate 4001 (CHR ''a'')) MODELS_BALANCED) =
     [(''system'', expandText_systemPrompt ''professional''),
      (''user'', replicate 4001 (CHR ''a''))]"
proof -
  have r: "\<not> isContentRefusal ''ok''" by (simp add: short_not_refusal)
  show ?thesis
    by (simp add: expandText_def expandText_userPrompt_def answering_returns [OF r]
          completion_request_def)
qed

section \<open>Properties of the extraction\<close>

text \<open>
  Claim C5. For a completion that is no refusal, tag generation takes the span from the
  first \<^verbatim>\<open>[\<close> through the last \<^verbatim>\<open>]\<close>. Without such a span, or when the span is no JSON text,
  the result is the empty array. A span that is a JSON text is an array. The array is cut
  by \<^verbatim>\<open>slice(0, maxTags)\<close> (its first \<open>maxTags\<close> elements for \<open>maxTags \<ge> 0\<close>, all but its last
  \<open>- maxTags\<close> for \<open>maxTags < 0\<close>). When the elements that are kept are strings, the result
  has one tag for each of them, in the same order:
  the string lower-cased and trimmed (for a string with a code unit from \<open>0x100\<close> on, the
  tag that stands for that form); what the array holds after the cut does not matter.
  When an element that is kept is no string, the result is the empty array. No input
  makes the operation throw. Trimming removes white space, and only white space, from
  both ends, until no white space stands at either end. The completion
  \<^verbatim>\<open>Here are tags: ["react", "Node.js", "Web-Dev"]\<close> with \<open>maxTags = 2\<close> gives
  \<^verbatim>\<open>["react", "node.js"]\<close>; the completion \<^verbatim>\<open>Tags: [" React Native ", "\tNode.JS\n ", "x"]\<close>
  with \<open>maxTags = 2\<close> gives \<^verbatim>\<open>["react native", "node.js"]\<close>; the completion
  \<^verbatim>\<open>["ok", "\u0100"]\<close> with \<open>maxTags = 1\<close> gives \<^verbatim>\<open>["ok"]\<close>; the completion
  \<^verbatim>\<open>["\u00c9COLE\u00a0"]\<close> gives the one tag \<^verbatim>\<open>\u00e9cole\<close>.
\<close>

theorem tag_extraction:
  "(makeCompletion provider (generateTags_systemPrompt maxTags) (generateTags_userPrompt content)
        MODELS_FAST calls = (Inr r, calls') \<longrightarrow>
      (delimited_span (CHR ''['') (CHR '']'') r = None \<longrightarrow>
         generateTags provider content maxTags calls = (Inr [], calls')) \<and>
      (\<forall>span. delimited_span (CHR ''['') (CHR '']'') r = Some span \<longrightarrow>
         (JSON_parse span = Inl SyntaxError \<or> (\<exists>xs. JSON_parse span = Inr (JArray xs))) \<and>
         (JSON_parse span = Inl SyntaxError \<longrightarrow>
            generateTags provider content maxTags calls = (Inr [], calls')) \<and>
         (\<forall>xs. JSON_parse span = Inr (JArray xs) \<longrightarrow>
            (\<forall>ts. slice0 xs maxTags = map JString ts \<longrightarrow>
               generateTags provider content maxTags calls =
                 (Inr (map (\<lambda>t. Tag (trim (toLowerCase t))) ts), calls')) \<and>
            (list_all is_string (slice0 xs maxTags) \<longrightarrow>
               (\<exists>tags. generateTags provider content maxTags calls = (Inr tags, calls') \<and>
                  list_all2
                    (\<lambda>x t. (\<forall>s. x = JString s \<longrightarrow> t = Tag (trim (toLowerCase s))) \<and>
                           (\<forall>us. x = JWide us \<longrightarrow> t = WideTag us))
                    (slice0 xs maxTags) tags)) \<and>
            (\<not> list_all is_string (slice0 xs maxTags) \<longrightarrow>
               generateTags provider content maxTags calls = (Inr [], calls')) \<and>
            (0 \<le> maxTags \<longrightarrow> slice0 xs maxTags = take (nat maxTags) xs) \<and>
            (maxTags < 0 \<longrightarrow>
               slice0 xs maxTags = take (length xs - nat (- maxTags)) xs)))) \<and>
   (\<exists>tags. fst (generateTags provider content maxTags calls) = Inr tags) \<and>
   (\<exists>a b. t = a @ trim t @ b \<and> list_all white_space a \<and> list_all white_space b) \<and>
   (trim t \<noteq> [] \<longrightarrow> \<not> white_space (hd (trim t)) \<and> \<not> white_space (last (trim t))) \<and>
   fst (generateTags (answering ''Here are tags: [\"react\", \"Node.js\", \"Web-Dev\"]'') content 2 calls) =
     Inr [Tag ''react'', Tag ''node.js''] \<and>
   fst (generateTags
          (answering (''Tags: [\" React Native \", \"'' @ [CHR 0x5C] @ ''tNode.JS'' @ [CHR 0x5C] @
                      ''n \", \"x\"]''))
          content 2 calls) =
     Inr [Tag ''react native'', Tag ''node.js''] \<and>
   fst (generateTags (answering (''[\"ok\", \"'' @ [CHR 0x5C] @ ''u0100\"]'')) content 1 calls) =
     Inr [Tag ''ok''] \<and>
   fst (generateTags
          (answering (''[\"'' @ [CHR 0x5C] @ ''u00c9COLE'' @ [CHR 0x5C] @ ''u00a0\"]''))
          content 5 calls) =
     Inr [Tag (CHR 0xE9 # ''cole'')]"
proof -
  have never: "\<exists>tags. fst (generateTags provider content maxTags calls) = Inr tags"
    by (auto simp: generateTags_def Let_def split: prod.splits sum.splits option.splits json.splits)
  have general: "makeCompletion provider (generateTags_systemPrompt maxTags)
        (generateTags_userPrompt content) MODELS_FAST calls = (Inr r, calls') \<longrightarrow>
      (delimited_span (CHR ''['') (CHR '']'') r = None \<longrightarrow>
         generateTags provider content maxTags calls = (Inr [], calls')) \<and>
      (\<forall>span. delimited_span (CHR ''['') (CHR '']'') r = Some span \<longrightarrow>
         (JSON_parse span = Inl SyntaxError \<or> (\<exists>xs. JSON_parse span = Inr (JArray xs))) \<and>
         (JSON_parse span = Inl SyntaxError \<longrightarrow>
            generateTags provider content maxTags calls = (Inr [], calls')) \<and>
         (\<forall>xs. JSON_parse span = Inr (JArray xs) \<longrightarrow>
            (\<forall>ts. slice0 xs maxTags = map JString ts \<longrightarrow>
               generateTags provider content maxTags calls =
                 (Inr (map (\<lambda>t. Tag (trim (toLowerCase t))) ts), calls')) \<and>
            (list_all is_string (slice0 xs maxTags) \<longrightarrow>
               (\<exists>tags. generateTags provider content maxTags calls = (Inr tags, calls') \<and>
                  list_all2
                    (\<lambda>x t. (\<forall>s. x = JString s \<longrightarrow> t = Tag (trim (toLowerCase s))) \<and>
                           (\<forall>us. x = JWide us \<longrightarrow> t = WideTag us))
                    (slice0 xs maxTags) tags)) \<and>
            (\<not> list_all is_string (slice0 xs maxTags) \<longrightarrow>
               generateTags provider content maxTags calls = (Inr [], calls')) \<and>
            (0 \<le> maxTags \<longrightarrow> slice0 xs maxTags = take (nat maxTags) xs) \<and>
            (maxTags < 0 \<longrightarrow>
               slice0 xs maxTags = take (length xs - nat (- maxTags)) xs)))"
  proof (intro impI conjI allI)
    assume m: "makeCompletion provider (generateTags_systemPrompt maxTags)
        (generateTags_userPrompt content) MODELS_FAST calls = (Inr r, calls')"
    note g = generateTags_span [OF m]
    {
      assume "delimited_span (CHR ''['') (CHR '']'') r = None"
      with g show "generateTags provider content maxTags calls = (Inr [], calls')" by simp
    }
    fix span
    assume s: "delimited_span (CHR ''['') (CHR '']'') r = Some span"
    from s show "JSON_parse span = Inl SyntaxError \<or> (\<exists>xs. JSON_parse span = Inr (JArray xs))"
      by (rule array_span_parses)
    {
      assume "JSON_parse span = Inl SyntaxError"
      with g s show "generateTags provider content maxTags calls = (Inr [], calls')" by simp
    }
    fix xs
    assume j: "JSON_parse span = Inr (JArray xs)"
    {
      fix ts
      assume "slice0 xs maxTags = map JString ts"
      with g s j show "generateTags provider content maxTags calls =
          (Inr (map (\<lambda>t. Tag (trim (toLowerCase t))) ts), calls')"
        by (simp add: lower_trim_strings)
    }
    {
      assume "list_all is_string (slice0 xs maxTags)"
      from lower_trim_each [OF this] g s j
      show "\<exists>tags. generateTags provider content maxTags calls = (Inr tags, calls') \<and>
                  list_all2
                    (\<lambda>x t. (\<forall>s. x = JString s \<longrightarrow> t = Tag (trim (toLowerCase s))) \<and>
                           (\<forall>us. x = JWide us \<longrightarrow> t = WideTag us))
                    (slice0 xs maxTags) tags"
        by auto
    }
    {
      assume "\<not> list_all is_string (slice0 xs maxTags)"
      from lower_trim_not_strings [OF this] g s j
      show "generateTags provider content maxTags calls = (Inr [], calls')" by simp
    }
    {
      assume "0 \<le> maxTags"
      then show "slice0 xs maxTags = take (nat maxTags) xs" by (simp add: slice0_def)
    }
    {
      assume "maxTags < 0"
      then show "slice0 xs maxTags = take (length xs - nat (- maxTags)) xs"
        by (simp add: slice0_def)
    }
  qed
  have spaces: "\<exists>a b. t = a @ trim t @ b \<and> list_all white_space a \<and> list_all white_space b"
    by (rule trim_between)
  have ends: "trim t \<noteq> [] \<longrightarrow> \<not> white_space (hd (trim t)) \<and> \<not> white_space (last (trim t))"
    using trim_ends [of t] by blast
  have c1: "\<not> isContentRefusal ''Here are tags: [\"react\", \"Node.js\", \"Web-Dev\"]''"
    by (rule not_refusal_scan) code_simp
  have s1: "delimited_span (CHR ''['') (CHR '']'') ''Here are tags: [\"react\", \"Node.js\", \"Web-Dev\"]'' =
             Some ''[\"react\", \"Node.js\", \"Web-Dev\"]''"
    by code_simp
  have j1: "JSON_parse ''[\"react\", \"Node.js\", \"Web-Dev\"]'' =
             Inr (JArray [JString ''react'', JString ''Node.js'', JString ''Web-Dev''])"
    by code_simp
  have l1: "lower_trim_all (slice0 [JString ''react'', JString ''Node.js'', JString ''Web-Dev''] 2) =
             Some [Tag ''react'', Tag ''node.js'']"
    by code_simp
  have e1: "fst (generateTags (answering ''Here are tags: [\"react\", \"Node.js\", \"Web-Dev\"]'')
                   content 2 calls) = Inr [Tag ''react'', Tag ''node.js'']"
    using c1 s1 j1 l1 by (rule generateTags_answer)
  have c2: "\<not> isContentRefusal
              (''Tags: [\" React Native \", \"'' @ [CHR 0x5C] @ ''tNode.JS'' @ [CHR 0x5C] @
               ''n \", \"x\"]'')"
    by (rule not_refusal_scan) code_simp
  have s2: "delimited_span (CHR ''['') (CHR '']'')
              (''Tags: [\" React Native \", \"'' @ [CHR 0x5C] @ ''tNode.JS'' @ [CHR 0x5C] @
               ''n \", \"x\"]'') =
             Some (''[\" React Native \", \"'' @ [CHR 0x5C] @ ''tNode.JS'' @ [CHR 0x5C] @
               ''n \", \"x\"]'')"
    by code_simp
  have j2: "JSON_parse (''[\" React Native \", \"'' @ [CHR 0x5C] @ ''tNode.JS'' @ [CHR 0x5C] @
               ''n \", \"x\"]'') =
             Inr (JArray [JString '' React Native '', JString (CHR 0x09 # ''Node.JS'' @ [CHR 0x0A, CHR 0x20]),
                          JString ''x''])"
    by code_simp
  have l2: "lower_trim_all (slice0 [JString '' React Native '',
                 JString (CHR 0x09 # ''Node.JS'' @ [CHR 0x0A, CHR 0x20]), JString ''x''] 2) =
             Some [Tag ''react native'', Tag ''node.js'']"
    by code_simp
  have e2: "fst (generateTags
          (answering (''Tags: [\" React Native \", \"'' @ [CHR 0x5C] @ ''tNode.JS'' @ [CHR 0x5C] @
                      ''n \", \"x\"]''))
          content 2 calls) =
     Inr [Tag ''react native'', Tag ''node.js'']"
    using c2 s2 j2 l2 by (rule generateTags_answer)
  have c3: "\<not> isContentRefusal (''[\"ok\", \"'' @ [CHR 0x5C] @ ''u0100\"]'')"
    by (rule not_refusal_scan) code_simp
  have s3: "delimited_span (CHR ''['') (CHR '']'') (''[\"ok\", \"'' @ [CHR 0x5C] @ ''u0100\"]'') =
             Some (''[\"ok\", \"'' @ [CHR 0x5C] @ ''u0100\"]'')"
    by code_simp
  have j3: "JSON_parse (''[\"ok\", \"'' @ [CHR 0x5C] @ ''u0100\"]'') =
             Inr (JArray [JString ''ok'', JWide [256]])"
    by code_simp
  have l3: "lower_trim_all (slice0 [JString ''ok'', JWide [256]] 1) = Some [Tag ''ok'']"
    by code_simp
  have e3: "fst (generateTags (answering (''[\"ok\", \"'' @ [CHR 0x5C] @ ''u0100\"]'')) content 1 calls) =
     Inr [Tag ''ok'']"
    using c3 s3 j3 l3 by (rule generateTags_answer)
  have c4: "\<not> isContentRefusal (''[\"'' @ [CHR 0x5C] @ ''u00c9COLE'' @ [CHR 0x5C] @ ''u00a0\"]'')"
    by (rule not_refusal_scan) code_simp
  have s4: "delimited_span (CHR ''['') (CHR '']'')
              (''[\"'' @ [CHR 0x5C] @ ''u00c9COLE'' @ [CHR 0x5C] @ ''u00a0\"]'') =
             Some (''[\"'' @ [CHR 0x5C] @ ''u00c9COLE'' @ [CHR 0x5C] @ ''u00a0\"]'')"
    by code_simp
  have j4: "JSON_parse (''[\"'' @ [CHR 0x5C] @ ''u00c9COLE'' @ [CHR 0x5C] @ ''u00a0\"]'') =
             Inr (JArray [JString (CHR 0xC9 # ''COLE'' @ [CHR 0xA0])])"
    by code_simp
  have l4: "lower_trim_all (slice0 [JString (CHR 0xC9 # ''COLE'' @ [CHR 0xA0])] 5) =
             Some [Tag (CHR 0xE9 # ''cole'')]"
    by code_simp
  have e4: "fst (generateTags
          (answering (''[\"'' @ [CHR 0x5C] @ ''u00c9COLE'' @ [CHR 0x5C] @ ''u00a0\"]''))
          content 5 calls) =
     Inr [Tag (CHR 0xE9 # ''cole'')]"
    using c4 s4 j4 l4 by (rule generateTags_answer)
  from general never spaces ends e1 e2 e3 e4 show ?thesis by (intro conjI)
qed

theorem tag_extraction_witness:
  "generateTags (answering ''[\" A\",1]'') ''a post'' 1 [] =
     (Inr [Tag ''a''],
      [completion_request (generateTags_systemPrompt 1) (generateTags_userPrompt ''a post'')
         MODELS_FAST]) \<and>
   generateTags (answering ''[\" A\",1]'') ''a post'' 2 [] =
     (Inr [],
      [completion_request (generateTags_systemPrompt 2) (generateTags_userPrompt ''a post'')
         MODELS_FAST]) \<and>
   slice0 [JString '' A'', JNumber ''1''] 1 = [JString '' A''] \<and>
   slice0 [JString '' A'', JNumber ''1''] (- 1) = [JString '' A''] \<and>
   generateTags (answering ''no tags'') ''a post'' 5 [] =
     (Inr [],
      [completion_request (generateTags_systemPrompt 5) (generateTags_userPrompt ''a post'')
         MODELS_FAST]) \<and>
   generateTags (answering ''[\"A\",]'') ''a post'' 5 [] =
     (Inr [],
      [completion_request (generateTags_systemPrompt 5) (generateTags_userPrompt ''a post'')
         MODELS_FAST]) \<and>
   generateTags (answering (''[\"b\",\"'' @ [CHR 0x5C] @ ''u0100\"]'')) ''a post'' 5 [] =
     (Inr [Tag ''b'', WideTag [256]],
      [completion_request (generateTags_systemPrompt 5) (generateTags_userPrompt ''a post'')
         MODELS_FAST]) \<and>
   \<not> white_space (hd (trim '' a '')) \<and> \<not> white_space (last (trim '' a ''))"
proof -
  have r1: "\<not> isContentRefusal ''[\" A\",1]''"
    and r2: "\<not> isContentRefusal ''no tags''"
    and r3: "\<not> isContentRefusal ''[\"A\",]''"
    by (simp_all add: short_not_refusal)
  have r4: "\<not> isContentRefusal (''[\"b\",\"'' @ [CHR 0x5C] @ ''u0100\"]'')"
    by (rule not_refusal_scan) code_simp
  have s1: "delimited_span (CHR ''['') (CHR '']'') ''[\" A\",1]'' = Some ''[\" A\",1]''"
    and s2: "delimited_span (CHR ''['') (CHR '']'') ''no tags'' = None"
    and s3: "delimited_span (CHR ''['') (CHR '']'') ''[\"A\",]'' = Some ''[\"A\",]''"
    and s4: "delimited_span (CHR ''['') (CHR '']'') (''[\"b\",\"'' @ [CHR 0x5C] @ ''u0100\"]'') =
               Some (''[\"b\",\"'' @ [CHR 0x5C] @ ''u0100\"]'')"
    by code_simp+
  have j1: "JSON_parse ''[\" A\",1]'' = Inr (JArray [JString '' A'', JNumber ''1''])"
    and j3: "JSON_parse ''[\"A\",]'' = Inl SyntaxError"
    and j4: "JSON_parse (''[\"b\",\"'' @ [CHR 0x5C] @ ''u0100\"]'') =
               Inr (JArray [JString ''b'', JWide [256]])"
    by code_simp+
  have k1: "slice0 [JString '' A'', JNumber ''1''] 1 = map JString ['' A'']"
    and k2: "\<not> list_all is_string (slice0 [JString '' A'', JNumber ''1''] 2)"
    and k4: "list_all is_string (slice0 [JString ''b'', JWide [256]] 5)"
    and k5: "slice0 [JString ''b'', JWide [256]] 5 = [JString ''b'', JWide [256]]"
    by code_simp+
  have l1: "trim (toLowerCase '' A'') = ''a''" and l4: "trim (toLowerCase ''b'') = ''b''"
    and t: "trim '' a '' \<noteq> []"
    by code_simp+
  have m1: "makeCompletion (answering ''[\" A\",1]'') (generateTags_systemPrompt 1)
              (generateTags_userPrompt ''a post'') MODELS_FAST [] =
            (Inr ''[\" A\",1]'',
             [completion_request (generateTags_systemPrompt 1) (generateTags_userPrompt ''a post'')
                MODELS_FAST])"
    and m2: "makeCompletion (answering ''[\" A\",1]'') (generateTags_systemPrompt 2)
              (generateTags_userPrompt ''a post'') MODELS_FAST [] =
            (Inr ''[\" A\",1]'',
             [completion_request (generateTags_systemPrompt 2) (generateTags_userPrompt ''a post'')
                MODELS_FAST])"
    using answering_returns [OF r1, where calls = "[]"] by simp_all
  have m3: "makeCompletion (answering ''no tags'') (generateTags_systemPrompt 5)
              (generateTags_userPrompt ''a post'') MODELS_FAST [] =
            (Inr ''no tags'',
             [completion_request (generateTags_systemPrompt 5) (generateTags_userPrompt ''a post'')
                MODELS_FAST])"
    using answering_returns [OF r2, where calls = "[]"] by simp
  have m4: "makeCompletion (answering ''[\"A\",]'') (generateTags_systemPrompt 5)
              (generateTags_userPrompt ''a post'') MODELS_FAST [] =
            (Inr ''[\"A\",]'',
             [completion_request (generateTags_systemPrompt 5) (generateTags_userPrompt ''a post'')
                MODELS_FAST])"
    using answering_returns [OF r3, where calls = "[]"] by simp
  have m5: "makeCompletion (answering (''[\"b\",\"'' @ [CHR 0x5C] @ ''u0100\"]''))
              (generateTags_systemPrompt 5) (generateTags_userPrompt ''a post'') MODELS_FAST [] =
            (Inr (''[\"b\",\"'' @ [CHR 0x5C] @ ''u0100\"]''),
             [completion_request (generateTags_systemPrompt 5) (generateTags_userPrompt ''a post'')
                MODELS_FAST])"
    using answering_returns [OF r4, where calls = "[]"] by simp
  note span1 = tag_extraction [THEN conjunct1, THEN mp, OF m1, THEN conjunct2, THEN spec, THEN mp,
      OF s1, THEN conjunct2, THEN conjunct2, THEN spec, THEN mp, OF j1]
  from span1 [THEN conjunct1, THEN spec, THEN mp, OF k1] l1
  have w1: "generateTags (answering ''[\" A\",1]'') ''a post'' 1 [] =
     (Inr [Tag ''a''],
      [completion_request (generateTags_systemPrompt 1) (generateTags_userPrompt ''a post'')
         MODELS_FAST])"
    by simp
  have p: "(0::int) \<le> 1" and n: "(- 1 :: int) < 0"
    by simp_all
  from span1 [THEN conjunct2, THEN conjunct2, THEN conjunct2, THEN conjunct1, THEN mp, OF p]
  have w7: "slice0 [JString '' A'', JNumber ''1''] 1 = [JString '' A'']"
    by simp
  have m8: "makeCompletion (answering ''[\" A\",1]'') (generateTags_systemPrompt (- 1))
              (generateTags_userPrompt ''a post'') MODELS_FAST [] =
            (Inr ''[\" A\",1]'',
             [completion_request (generateTags_systemPrompt (- 1))
                (generateTags_userPrompt ''a post'') MODELS_FAST])"
    using answering_returns [OF r1, where calls = "[]"] by simp
  from tag_extraction [THEN conjunct1, THEN mp, OF m8, THEN conjunct2, THEN spec, THEN mp,
      OF s1, THEN conjunct2, THEN conjunct2, THEN spec, THEN mp, OF j1,
      THEN conjunct2, THEN conjunct2, THEN conjunct2, THEN conjunct2, THEN mp, OF n]
  have w8: "slice0 [JString '' A'', JNumber ''1''] (- 1) = [JString '' A'']"
    by simp
  note w2 = tag_extraction [THEN conjunct1, THEN mp, OF m2, THEN conjunct2, THEN spec, THEN mp,
      OF s1, THEN conjunct2, THEN conjunct2, THEN spec, THEN mp, OF j1,
      THEN conjunct2, THEN conjunct2, THEN conjunct1, THEN mp, OF k2]
  note w3 = tag_extraction [THEN conjunct1, THEN mp, OF m3, THEN conjunct1, THEN mp, OF s2]
  note w4 = tag_extraction [THEN conjunct1, THEN mp, OF m4, THEN conjunct2, THEN spec, THEN mp,
      OF s3, THEN conjunct2, THEN conjunct1, THEN mp, OF j3]
  from tag_extraction [THEN conjunct1, THEN mp, OF m5, THEN conjunct2, THEN spec, THEN mp,
      OF s4, THEN conjunct2, THEN conjunct2, THEN spec, THEN mp, OF j4,
      THEN conjunct2, THEN conjunct1, THEN mp, OF k4] l4
  have w5: "generateTags (answering (''[\"b\",\"'' @ [CHR 0x5C] @ ''u0100\"]'')) ''a post'' 5 [] =
     (Inr [Tag ''b'', WideTag [256]],
      [completion_request (generateTags_systemPrompt 5) (generateTags_userPrompt ''a post'')
         MODELS_FAST])"
    unfolding k5 by (auto simp: list_all2_Cons1)
  note w6 = tag_extraction [THEN conjunct2, THEN conjunct2, THEN conjunct2, THEN conjunct1,
      THEN mp, OF t]
  from w1 w2 w3 w4 w5 w6 w7 w8 show ?thesis by (simp only: simp_thms)
qed

text \<open>
  Claim C6. For a completion that is no refusal and that has no span from a first \<^verbatim>\<open>{\<close>
  through a last \<^verbatim>\<open>}\<close>, or whose span is no JSON text, the improvement operation returns
  \<^verbatim>\<open>{improved: text, changes: []}\<close> and the grammar check returns
  \<^verbatim>\<open>{corrected: text, errors: []}\<close>, with the text as it was given; neither throws.
\<close>

theorem object_operations_degrade:
  "(makeCompletion provider improveText_systemPrompt (improveText_userPrompt text)
        MODELS_BALANCED calls = (Inr r, calls') \<and>
    (delimited_span (CHR ''{'') (CHR ''}'') r = None \<or>
     (\<exists>span. delimited_span (CHR ''{'') (CHR ''}'') r = Some span \<and>
             JSON_parse span = Inl SyntaxError)) \<longrightarrow>
    improveText provider text calls =
      (Inr (JObject [(''improved'', JString text), (''changes'', JArray [])]), calls')) \<and>
   (makeCompletion provider grammarCheck_systemPrompt (grammarCheck_userPrompt text)
        MODELS_FAST calls = (Inr r, calls') \<and>
    (delimited_span (CHR ''{'') (CHR ''}'') r = None \<or>
     (\<exists>span. delimited_span (CHR ''{'') (CHR ''}'') r = Some span \<and>
             JSON_parse span = Inl SyntaxError)) \<longrightarrow>
    grammarCheck provider text calls =
      (Inr (JObject [(''corrected'', JString text), (''errors'', JArray [])]), calls'))"
  by (auto simp: improveText_def grammarCheck_def object_span)

theorem object_operations_degrade_witness:
  "improveText (answering ''unchanged'') ''teh text'' [] =
     (Inr (JObject [(''improved'', JString ''teh text''), (''changes'', JArray [])]),
      [completion_request improveText_systemPrompt (improveText_userPrompt ''teh text'')
         MODELS_BALANCED]) \<and>
   grammarCheck (answering ''{oops}'') ''teh text'' [] =
     (Inr (JObject [(''corrected'', JString ''teh text''), (''errors'', JArray [])]),
      [completion_request grammarCheck_systemPrompt (grammarCheck_userPrompt ''teh text'')
         MODELS_FAST])"
proof -
  have r1: "\<not> isContentRefusal ''unchanged''" and r2: "\<not> isContentRefusal ''{oops}''"
    by (simp_all add: short_not_refusal)
  have s1: "delimited_span (CHR ''{'') (CHR ''}'') ''unchanged'' = None"
    and s2: "delimited_span (CHR ''{'') (CHR ''}'') ''{oops}'' = Some ''{oops}''"
    by code_simp+
  have j2: "JSON_parse ''{oops}'' = Inl SyntaxError"
    by code_simp
  from object_operations_degrade [of "answering ''unchanged''" "''teh text''" "[]" "''unchanged''"]
       object_operations_degrade [of "answering ''{oops}''" "''teh text''" "[]" "''{oops}''"]
       answering_returns [OF r1] answering_returns [OF r2] s1 s2 j2
  show ?thesis by simp
qed

text \<open>
  Claim C7 says that the improvement and grammar operations return values of their
  declared shapes only. The code returns what \<^verbatim>\<open>JSON.parse\<close> gives for the span, unchecked:
  a completion whose object lacks \<^verbatim>\<open>changes\<close> is returned as it is by the improvement
  operation, and one whose \<^verbatim>\<open>errors\<close> holds a string instead of an object is returned as it
  is by the grammar check.
\<close>

theorem parsed_object_returned_unvalidated:
  "fst (improveText (answering ''{\"improved\": \"Better text.\"}'') ''teh text'' []) =
     Inr (JObject [(''improved'', JString ''Better text.'')]) \<and>
   \<not> improve_shape (JObject [(''improved'', JString ''Better text.'')]) \<and>
   fst (grammarCheck (answering ''{\"corrected\": \"The text.\", \"errors\": [\"typo\"]}'') ''teh text'' []) =
     Inr (JObject [(''corrected'', JString ''The text.''), (''errors'', JArray [JString ''typo''])]) \<and>
   \<not> grammar_shape
        (JObject [(''corrected'', JString ''The text.''), (''errors'', JArray [JString ''typo''])])"
proof -
  have r1: "\<not> isContentRefusal ''{\"improved\": \"Better text.\"}''"
    by (rule not_refusal_scan) code_simp
  have r2: "\<not> isContentRefusal ''{\"corrected\": \"The text.\", \"errors\": [\"typo\"]}''"
    by (rule not_refusal_scan) code_simp
  have s1: "delimited_span (CHR ''{'') (CHR ''}'') ''{\"improved\": \"Better text.\"}'' =
              Some ''{\"improved\": \"Better text.\"}''"
    by code_simp
  have s2: "delimited_span (CHR ''{'') (CHR ''}'')
              ''{\"corrected\": \"The text.\", \"errors\": [\"typo\"]}'' =
              Some ''{\"corrected\": \"The text.\", \"errors\": [\"typo\"]}''"
    by code_simp
  have j1: "JSON_parse ''{\"improved\": \"Better text.\"}'' =
              Inr (JObject [(''improved'', JString ''Better text.'')])"
    by code_simp
  have j2: "JSON_parse ''{\"corrected\": \"The text.\", \"errors\": [\"typo\"]}'' =
              Inr (JObject [(''corrected'', JString ''The text.''),
                            (''errors'', JArray [JString ''typo''])])"
    by code_simp
  have n1: "\<not> improve_shape (JObject [(''improved'', JString ''Better text.'')])"
    by (simp add: improve_shape_def property_def)
  have n2: "\<not> grammar_shape
        (JObject [(''corrected'', JString ''The text.''), (''errors'', JArray [JString ''typo''])])"
    by (simp add: grammar_shape_def error_shape_def property_def)
  from n1 n2 show ?thesis
    by (simp add: improveText_def grammarCheck_def object_span answering_returns [OF r1]
          answering_returns [OF r2] s1 s2 j1 j2)
qed

text \<open>
  Claim C8. For a completion that is no refusal, the category operation trims it and
  compares it, both sides lower-cased, with the 20 fixed category names: it returns the
  name that matches, and \<^verbatim>\<open>Other\<close> when none does; the result is always one of the 20
  names. The completion \<^verbatim>\<open>"  web development  "\<close> gives \<^verbatim>\<open>Web Development\<close>, the completion
  \<^verbatim>\<open>quantum knitting\<close> gives \<^verbatim>\<open>Other\<close>.
\<close>

theorem category_match:
  "(makeCompletion provider getCategory_systemPrompt (getCategory_userPrompt content)
        MODELS_FAST calls = (Inr r, calls') \<longrightarrow>
      (\<forall>c\<in>set categories. toLowerCase c = toLowerCase (trim r) \<longrightarrow>
          getCategory provider content calls = (Inr c, calls')) \<and>
      ((\<forall>c\<in>set categories. toLowerCase c \<noteq> toLowerCase (trim r)) \<longrightarrow>
          getCategory provider content calls = (Inr ''Other'', calls')) \<and>
      (\<exists>c\<in>set categories. getCategory provider content calls = (Inr c, calls'))) \<and>
   length categories = 20 \<and>
   fst (getCategory (answering ''  web development  '') content calls) = Inr ''Web Development'' \<and>
   fst (getCategory (answering ''quantum knitting'') content calls) = Inr ''Other''"
proof -
  have general: "makeCompletion provider getCategory_systemPrompt (getCategory_userPrompt content)
        MODELS_FAST calls = (Inr r, calls') \<longrightarrow>
      (\<forall>c\<in>set categories. toLowerCase c = toLowerCase (trim r) \<longrightarrow>
          getCategory provider content calls = (Inr c, calls')) \<and>
      ((\<forall>c\<in>set categories. toLowerCase c \<noteq> toLowerCase (trim r)) \<longrightarrow>
          getCategory provider content calls = (Inr ''Other'', calls')) \<and>
      (\<exists>c\<in>set categories. getCategory provider content calls = (Inr c, calls'))"
  proof (intro impI conjI ballI)
    fix c
    assume m: "makeCompletion provider getCategory_systemPrompt (getCategory_userPrompt content)
        MODELS_FAST calls = (Inr r, calls')"
      and c: "c \<in> set categories" "toLowerCase c = toLowerCase (trim r)"
    from c categories_nonempty have "c \<noteq> []" by auto
    with m find_category [OF c] show "getCategory provider content calls = (Inr c, calls')"
      by (simp add: getCategory_def)
  next
    assume m: "makeCompletion provider getCategory_systemPrompt (getCategory_userPrompt content)
        MODELS_FAST calls = (Inr r, calls')"
      and "\<forall>c\<in>set categories. toLowerCase c \<noteq> toLowerCase (trim r)"
    with find_no_category [of "trim r"]
    show "getCategory provider content calls = (Inr ''Other'', calls')"
      by (simp add: getCategory_def)
  next
    assume m: "makeCompletion provider getCategory_systemPrompt (getCategory_userPrompt content)
        MODELS_FAST calls = (Inr r, calls')"
    have other: "''Other'' \<in> set categories" by (simp add: categories_def)
    show "\<exists>c\<in>set categories. getCategory provider content calls = (Inr c, calls')"
    proof (cases "find (\<lambda>c. toLowerCase c = toLowerCase (trim r)) categories")
      case None
      with m other show ?thesis by (auto simp: getCategory_def)
    next
      case (Some c)
      then have "c \<in> set categories" by (auto simp: find_Some_iff)
      moreover from this categories_nonempty have "c \<noteq> []" by auto
      ultimately show ?thesis using m Some by (auto simp: getCategory_def)
    qed
  qed
  have r1: "\<not> isContentRefusal ''  web development  ''"
    by (rule not_refusal_scan) code_simp
  have r2: "\<not> isContentRefusal ''quantum knitting''"
    by (rule not_refusal_scan) code_simp
  have f1: "find (\<lambda>c. toLowerCase c = toLowerCase (trim ''  web development  '')) categories =
              Some ''Web Development''"
    by code_simp
  have f2: "find (\<lambda>c. toLowerCase c = toLowerCase (trim ''quantum knitting'')) categories = None"
    by code_simp
  have e1: "fst (getCategory (answering ''  web development  '') content calls) =
              Inr ''Web Development''"
    by (simp add: getCategory_def answering_returns [OF r1] f1)
  have e2: "fst (getCategory (answering ''quantum knitting'') content calls) = Inr ''Other''"
    by (simp add: getCategory_def answering_returns [OF r2] f2)
  have n: "length categories = 20" by (simp add: categories_def)
  from general n e1 e2 show ?thesis by blast
qed

theorem category_match_witness:
  "getCategory (answering ''DEVOPS'') ''a post'' [] =
     (Inr ''DevOps'',
      [completion_request getCategory_systemPrompt (getCategory_userPrompt ''a post'') MODELS_FAST]) \<and>
   getCategory (answering ''Knitting'') ''a post'' [] =
     (Inr ''Other'',
      [completion_request getCategory_systemPrompt (getCategory_userPrompt ''a post'') MODELS_FAST])"
proof -
  have r1: "\<not> isContentRefusal ''DEVOPS''" and r2: "\<not> isContentRefusal ''Knitting''"
    by (simp_all add: short_not_refusal)
  have c1: "''DevOps'' \<in> set categories"
    by (simp add: categories_def)
  have l1: "toLowerCase ''DevOps'' = toLowerCase (trim ''DEVOPS'')"
    by code_simp
  have l2: "list_all (\<lambda>c. toLowerCase c \<noteq> toLowerCase (trim ''Knitting'')) categories"
    by code_simp
  from category_match [of "answering ''DEVOPS''" "''a post''" "[]" "''DEVOPS''"]
       category_match [of "answering ''Knitting''" "''a post''" "[]" "''Knitting''"]
       answering_returns [OF r1] answering_returns [OF r2] c1 l1 l2
  show ?thesis by (simp add: list_all_iff)
qed

section \<open>Errors of the invoker inside the operations\<close>

text \<open>
  Claim C1, as the code has it. The tag, title, improvement, grammar and category
  operations catch every error that \<^verbatim>\<open>makeCompletion\<close> throws, the
  \<^verbatim>\<open>ContentModerationError\<close> and the error of an unavailable service alike, and return
  their default value (the empty array, the object that echoes the text, \<^verbatim>\<open>Other\<close>), as
  they do for a span that does not parse; none of the five ever throws. The summary,
  expansion, tone and continuation operations return the outcome of \<^verbatim>\<open>makeCompletion\<close>
  as it is, its errors included.
\<close>

theorem structured_operations_never_raise:
  "(makeCompletion provider (generateTags_systemPrompt maxTags) (generateTags_userPrompt content)
        MODELS_FAST calls = (Inl e, calls') \<longrightarrow>
      generateTags provider content maxTags calls = (Inr [], calls')) \<and>
   (makeCompletion provider (generateTitles_systemPrompt n) (generateTitles_userPrompt content n)
        MODELS_FAST calls = (Inl e, calls') \<longrightarrow>
      generateTitles provider content n calls = (Inr [], calls')) \<and>
   (makeCompletion provider improveText_systemPrompt (improveText_userPrompt text)
        MODELS_BALANCED calls = (Inl e, calls') \<longrightarrow>
      improveText provider text calls =
        (Inr (JObject [(''improved'', JString text), (''changes'', JArray [])]), calls')) \<and>
   (makeCompletion provider grammarCheck_systemPrompt (grammarCheck_userPrompt text)
        MODELS_FAST calls = (Inl e, calls') \<longrightarrow>
      grammarCheck provider text calls =
        (Inr (JObject [(''corrected'', JString text), (''errors'', JArray [])]), calls')) \<and>
   (makeCompletion provider getCategory_systemPrompt (getCategory_userPrompt content)
        MODELS_FAST calls = (Inl e, calls') \<longrightarrow>
      getCategory provider content calls = (Inr ''Other'', calls')) \<and>
   (\<exists>v. fst (generateTags provider content maxTags calls) = Inr v) \<and>
   (\<exists>v. fst (generateTitles provider content n calls) = Inr v) \<and>
   (\<exists>v. fst (improveText provider text calls) = Inr v) \<and>
   (\<exists>v. fst (grammarCheck provider text calls) = Inr v) \<and>
   (\<exists>v. fst (getCategory provider content calls) = Inr v) \<and>
   generateSummary provider content len calls =
     makeCompletion provider (generateSummary_systemPrompt len)
       (generateSummary_userPrompt content) MODELS_FAST calls \<and>
   expandText provider text tone calls =
     makeCompletion provider (expandText_systemPrompt tone) text MODELS_BALANCED calls \<and>
   changeTone provider text tone calls =
     makeCompletion provider (changeTone_systemPrompt tone) text MODELS_FAST calls \<and>
   continueWriting provider text k calls =
     makeCompletion provider (continueWriting_systemPrompt k) text MODELS_BALANCED calls"
proof -
  have tags: "\<exists>v. fst (generateTags provider content maxTags calls) = Inr v"
    by (auto simp: generateTags_def Let_def split: prod.splits sum.splits option.splits json.splits)
  have titles: "\<exists>v. fst (generateTitles provider content n calls) = Inr v"
    by (auto simp: generateTitles_def Let_def split: prod.splits sum.splits option.splits json.splits)
  have improve: "\<exists>v. fst (improveText provider text calls) = Inr v"
    by (auto simp: improveText_def split: prod.splits sum.splits option.splits)
  have grammar: "\<exists>v. fst (grammarCheck provider text calls) = Inr v"
    by (auto simp: grammarCheck_def split: prod.splits sum.splits option.splits)
  have category: "\<exists>v. fst (getCategory provider content calls) = Inr v"
    by (auto simp: getCategory_def Let_def split: prod.splits sum.splits option.splits)
  from tags titles improve grammar category show ?thesis
    by (simp add: generateTags_def generateTitles_def improveText_def grammarCheck_def
          getCategory_def generateSummary_def expandText_def changeTone_def continueWriting_def
          expandText_userPrompt_def changeTone_userPrompt_def continueWriting_userPrompt_def)
qed

theorem structured_operations_never_raise_witness:
  "generateTags (answering ''I cannot help with that request.'') ''A post about cooking.'' 5 [] =
     (Inr [],
      [completion_request (generateTags_systemPrompt 5)
         (generateTags_userPrompt ''A post about cooking.'') MODELS_FAST]) \<and>
   fst (getCategory (failing ''fetch failed'') ''A post about cooking.'' []) = Inr ''Other'' \<and>
   fst (generateSummary (answering ''I cannot help with that request.'') ''A post about cooking.''
          ''short'' []) = Inl (ContentModerationError safety_message)"
proof -
  have r: "isContentRefusal ''I cannot help with that request.''"
    by code_simp
  have f: "\<not> api_content_filter \<lparr>message = Some ''fetch failed'', code = None\<rparr>"
    by (simp add: api_content_filter_def)
  have u: "makeCompletion (failing ''fetch failed'') getCategory_systemPrompt
             (getCategory_userPrompt ''A post about cooking.'') MODELS_FAST [] =
           (Inl (Error unavailable_message),
            [completion_request getCategory_systemPrompt
               (getCategory_userPrompt ''A post about cooking.'') MODELS_FAST])"
    using f by (simp add: makeCompletion_def chat_completions_create_def failing_def
        MODELS_FAST_def FALLBACK_MODEL_def)
  from structured_operations_never_raise
         [of "answering ''I cannot help with that request.''" 5 "''A post about cooking.''" "[]"
             "ContentModerationError safety_message"
             "[completion_request (generateTags_systemPrompt 5)
                 (generateTags_userPrompt ''A post about cooking.'') MODELS_FAST]"
             _ _ "''short''"]
       structured_operations_never_raise
         [of "failing ''fetch failed''" _ "''A post about cooking.''" "[]"
             "Error unavailable_message"
             "[completion_request getCategory_systemPrompt
                 (getCategory_userPrompt ''A post about cooking.'') MODELS_FAST]"]
       answering_refuses [OF r] u
  show ?thesis by simp
qed

text \<open>
  The claim as stated has tag generation throw a \<^verbatim>\<open>ContentModerationError\<close> for a
  completion that is a refusal. For such a completion \<^verbatim>\<open>makeCompletion\<close> throws it, and
  tag generation returns the empty array.
\<close>

theorem refusal_is_swallowed_by_tags:
  "isContentRefusal ''I cannot help with that request.'' \<and>
   makeCompletion (answering ''I cannot help with that request.'') (generateTags_systemPrompt 5)
       (generateTags_userPrompt ''A post about cooking.'') MODELS_FAST [] =
     (Inl (ContentModerationError safety_message),
      [completion_request (generateTags_systemPrompt 5)
         (generateTags_userPrompt ''A post about cooking.'') MODELS_FAST]) \<and>
   fst (generateTags (answering ''I cannot help with that request.'') ''A post about cooking.'' 5 []) =
     Inr [] \<and>
   fst (generateTags (answering ''I cannot help with that request.'') ''A post about cooking.'' 5 []) \<noteq>
     Inl (ContentModerationError safety_message)"
proof -
  have r: "isContentRefusal ''I cannot help with that request.''"
    by code_simp
  from answering_refuses [OF r] r show ?thesis
    by (simp add: generateTags_def)
qed

end
